theory Spec2Isabelle
  imports Complex_Main
begin

section \<open>Run-time values\<close>

text \<open>
  The recorder is TypeScript, so its parameter types are erased when it runs, and the
  agent feed hands the session whatever \<^verbatim>\<open>JSON.parse\<close> produced. Values are
  therefore modelled as the program meets them at run time. A number is a rational
  (only its being zero or not matters here); a string is its list of code units; an
  object is the list of its own properties, one entry per key.
\<close>

datatype jsval =
    JUndefined
  | JNull
  | JBool bool
  | JNum rat
  | JStr string
  | JArr "jsval list"
  | JObj "(string \<times> jsval) list"

text \<open>Truthiness, as \<^verbatim>\<open>||\<close>, \<^verbatim>\<open>?:\<close> and \<^verbatim>\<open>!\<close> test it.\<close>

fun truthy :: "jsval \<Rightarrow> bool" where
  "truthy JUndefined = False"
| "truthy JNull = False"
| "truthy (JBool b) = b"
| "truthy (JNum n) = (n \<noteq> 0)"
| "truthy (JStr s) = (s \<noteq> [])"
| "truthy (JArr xs) = True"
| "truthy (JObj kv) = True"

text \<open>\<^verbatim>\<open>a || b\<close>.\<close>

definition orElse :: "jsval \<Rightarrow> jsval \<Rightarrow> jsval" where
  "orElse a b = (if truthy a then a else b)"

text \<open>
  \<^verbatim>\<open>v?.k\<close> for the property names this program reads (\<^verbatim>\<open>type\<close>, \<^verbatim>\<open>raw\<close>,
  \<^verbatim>\<open>content\<close>, \<^verbatim>\<open>filesCreated\<close>, ...), none of which a built-in prototype defines:
  an object answers with its own property, everything else with \<^verbatim>\<open>undefined\<close>.
\<close>

definition getProp :: "jsval \<Rightarrow> string \<Rightarrow> jsval" where
  "getProp v k =
     (case v of
        JObj kv \<Rightarrow> (case map_of kv k of Some x \<Rightarrow> x | None \<Rightarrow> JUndefined)
      | _ \<Rightarrow> JUndefined)"

text \<open>
  Whether converting a value to a string (in a template literal or in
  \<^verbatim>\<open>Array.prototype.join\<close>) returns. A parsed object that carries an own
  \<^verbatim>\<open>toString\<close> property shadows the inherited method with something that is not
  callable, and the conversion raises a TypeError; an array is joined, its
  \<^verbatim>\<open>null\<close> and \<^verbatim>\<open>undefined\<close> elements giving the empty string.
\<close>

fun stringifies :: "jsval \<Rightarrow> bool" where
  "stringifies (JObj kv) = (''toString'' \<notin> fst ` set kv)"
| "stringifies (JArr xs) =
     list_all (\<lambda>x. x = JUndefined \<or> x = JNull \<or> stringifies x) xs"
| "stringifies v = True"

fun isString :: "jsval \<Rightarrow> bool" where
  "isString (JStr s) = True"
| "isString v = False"

fun isPrimitive :: "jsval \<Rightarrow> bool" where
  "isPrimitive (JArr xs) = False"
| "isPrimitive (JObj kv) = False"
| "isPrimitive v = True"

text \<open>
  \<^verbatim>\<open>Set.prototype.add\<close> on a set kept in insertion order. Primitives are compared by
  value. Objects and arrays are compared by reference, and every object that reaches
  the session is a fresh one (a literal or the result of parsing), so it is always a
  new member.
\<close>

definition setAdd :: "jsval list \<Rightarrow> jsval \<Rightarrow> jsval list" where
  "setAdd members f =
     (if isPrimitive f \<and> f \<in> set members then members else members @ [f])"

text \<open>
  \<^verbatim>\<open>list?.forEach(f => members.add(f))\<close>: skipped for \<^verbatim>\<open>undefined\<close> and
  \<^verbatim>\<open>null\<close>, a loop over an array, and a TypeError (\<open>None\<close>) for every other
  value, which has no callable \<^verbatim>\<open>forEach\<close>.
\<close>

definition forEachAdd :: "jsval \<Rightarrow> jsval list \<Rightarrow> jsval list option" where
  "forEachAdd list members =
     (case list of
        JUndefined \<Rightarrow> Some members
      | JNull \<Rightarrow> Some members
      | JArr xs \<Rightarrow> Some (foldl setAdd members xs)
      | _ \<Rightarrow> None)"

text \<open>The decimal digits of a number, as a template literal prints it.\<close>

fun decimal :: "nat \<Rightarrow> string" where
  "decimal n =
     (if n < 10 then [''0123456789'' ! n]
      else decimal (n div 10) @ [''0123456789'' ! (n mod 10)])"

declare decimal.simps [simp del]

section \<open>Steps and the artifact\<close>

text \<open>
  A step carries the three fields of \<^verbatim>\<open>BaseStep\<close> (id, timestamp, sequence) and then
  the fields of its kind, in the order of the object literal that builds it. An
  optional field that was not given holds \<^verbatim>\<open>undefined\<close>.
\<close>

datatype step =
    PromptStep (stepId: string) (timestamp: int) (sequence: nat) jsval jsval jsval
  | ActionStep (stepId: string) (timestamp: int) (sequence: nat) jsval jsval jsval jsval jsval
  | TerminalStep (stepId: string) (timestamp: int) (sequence: nat) jsval jsval jsval jsval
  | NoteStep (stepId: string) (timestamp: int) (sequence: nat) jsval jsval
  | CheckpointStep (stepId: string) (timestamp: int) (sequence: nat) jsval jsval
  | ErrorStep (stepId: string) (timestamp: int) (sequence: nat) jsval jsval jsval

text \<open>The \<^verbatim>\<open>type\<close> tag of a step.\<close>

fun stepType :: "step \<Rightarrow> string" where
  "stepType (PromptStep i t n c ctx intent) = ''prompt''"
| "stepType (ActionStep i t n s fc fm fd a) = ''action''"
| "stepType (TerminalStep i t n c oc s e) = ''terminal''"
| "stepType (NoteStep i t n c cat) = ''note''"
| "stepType (CheckpointStep i t n nm s) = ''checkpoint''"
| "stepType (ErrorStep i t n m r res) = ''error''"

datatype RecordingState = Idle | Recording | Paused

datatype EditorType = Cursor | Vscode | Windsurf | Zed | Neovim | Jetbrains | Openclaw | OtherEditor

text \<open>
  \<^verbatim>\<open>createdAt\<close> holds the instant (milliseconds since the epoch) whose ISO 8601
  rendering the code stores. \<^verbatim>\<open>artifactSteps\<close> is a reference to the step array, not
  a copy of it.
\<close>

record BuildlogMetadata =
  metaId :: string
  metaTitle :: string
  createdAt :: int
  durationSeconds :: int
  editor :: EditorType
  aiProvider :: string
  replicable :: bool

record BuildlogOutcome =
  status :: string
  summary :: string
  outcomeFilesCreated :: nat
  outcomeFilesModified :: nat
  canReplicate :: bool

record BuildlogFile =
  version :: string
  format :: string
  metadata :: BuildlogMetadata
  artifactSteps :: nat
  outcome :: BuildlogOutcome

section \<open>The recording session\<close>

text \<open>
  What the two event emitters fired, in order. The subscribers of this repository (the
  status bar, a context key, a log line) only read the session.
\<close>

datatype notification = StateChange RecordingState | StepAdded step

text \<open>
  The fields of \<^verbatim>\<open>RecordingSession\<close>. \<^verbatim>\<open>steps\<close> is a reference into \<open>arrays\<close>, the
  store of the step arrays this session has allocated; \<open>nextArray\<close> is the first
  unused reference. The two file sets are kept in insertion order.
\<close>

record session =
  state :: RecordingState
  sessionId :: string
  title :: string
  startTime :: "int option"
  steps :: nat
  sequenceCounter :: nat
  workspaceRoot :: string
  workspaceName :: string
  filesCreated :: "jsval list"
  filesModified :: "jsval list"
  emitted :: "notification list"
  arrays :: "nat \<Rightarrow> step list"
  nextArray :: nat

text \<open>What \<^verbatim>\<open>uuidv4()\<close> and \<^verbatim>\<open>Date.now()\<close> return during one call.\<close>

record tick =
  uid :: string
  now :: int

datatype error = AlreadyRecording | NoRecording | TypeError

text \<open>The elements of the array \<^verbatim>\<open>this.steps\<close> refers to.\<close>

definition stepList :: "session \<Rightarrow> step list" where
  "stepList s = arrays s (steps s)"

text \<open>\<^verbatim>\<open>this.steps = []\<close>: a new, empty array.\<close>

definition freshSteps :: "session \<Rightarrow> session" where
  "freshSteps s =
     s\<lparr>steps := nextArray s,
       arrays := (arrays s)(nextArray s := []),
       nextArray := nextArray s + 1\<rparr>"

text \<open>The constructor, with the field initialisers.\<close>

definition newSession :: "string \<Rightarrow> string \<Rightarrow> string \<Rightarrow> session" where
  "newSession newId wsRoot wsName =
     \<lparr>state = Idle, sessionId = newId, title = [], startTime = None, steps = 0,
      sequenceCounter = 0, workspaceRoot = wsRoot, workspaceName = wsName,
      filesCreated = [], filesModified = [], emitted = [],
      arrays = (\<lambda>r. []), nextArray = 1\<rparr>"

definition setState :: "RecordingState \<Rightarrow> session \<Rightarrow> session" where
  "setState st s = s\<lparr>state := st, emitted := emitted s @ [StateChange st]\<rparr>"

definition reset :: "session \<Rightarrow> session" where
  "reset s =
     (freshSteps s)\<lparr>startTime := None, title := [], sequenceCounter := 0,
                    filesCreated := [], filesModified := []\<rparr>"

text \<open>
  \<^verbatim>\<open>start(title?)\<close>. \<open>dateLabel\<close> is what \<^verbatim>\<open>new Date().toLocaleDateString()\<close>
  returns for the default title.
\<close>

definition start :: "tick \<Rightarrow> string \<Rightarrow> string option \<Rightarrow> session \<Rightarrow> error option \<times> session" where
  "start t dateLabel ttl s =
     (if state s = Recording then (Some AlreadyRecording, s)
      else
        (None,
         setState Recording
           ((freshSteps
              (s\<lparr>sessionId := uid t,
                 title := (case ttl of
                             None \<Rightarrow> ''Workflow '' @ dateLabel
                           | Some x \<Rightarrow> if x = [] then ''Workflow '' @ dateLabel else x),
                 startTime := Some (now t)\<rparr>))
            \<lparr>sequenceCounter := 0, filesCreated := [], filesModified := []\<rparr>)))"

text \<open>
  \<^verbatim>\<open>Math.round(ms / 1000)\<close> on a whole number of milliseconds; ties go up. Exact for
  differences below \<open>2 ^ 53\<close> milliseconds, where a double holds every integer.
\<close>

definition roundSeconds :: "int \<Rightarrow> int" where
  "roundSeconds ms = (ms + 500) div 1000"

definition getTimestamp :: "int \<Rightarrow> session \<Rightarrow> int" where
  "getTimestamp clock s =
     (case startTime s of None \<Rightarrow> 0 | Some t0 \<Rightarrow> roundSeconds (clock - t0))"

text \<open>\<^verbatim>\<open>addStep\<close>: push onto the array in place, then notify.\<close>

definition addStep :: "step \<Rightarrow> session \<Rightarrow> session" where
  "addStep st s =
     s\<lparr>arrays := (arrays s)(steps s := arrays s (steps s) @ [st]),
       emitted := emitted s @ [StepAdded st]\<rparr>"

text \<open>
  The six mutation methods. Each returns the exception it raised, if any, and the
  session as the call left it. In \<^verbatim>\<open>addPrompt\<close> and \<^verbatim>\<open>addNote\<close> the log line
  calls \<^verbatim>\<open>content.substring\<close> after the step object, and with it
  \<^verbatim>\<open>this.sequenceCounter++\<close>, has been evaluated and before \<^verbatim>\<open>addStep\<close>.
\<close>

definition addPrompt :: "tick \<Rightarrow> jsval \<Rightarrow> jsval \<Rightarrow> session \<Rightarrow> error option \<times> session" where
  "addPrompt t content options s =
     (if state s \<noteq> Recording then (None, s)
      else
        let st = PromptStep (uid t) (getTimestamp (now t) s) (sequenceCounter s) content
                   (getProp options ''context'') (getProp options ''intent'');
            s1 = s\<lparr>sequenceCounter := sequenceCounter s + 1\<rparr>
        in if \<not> isString content then (Some TypeError, s1)
           else (None, addStep st s1))"

definition addAction :: "tick \<Rightarrow> jsval \<Rightarrow> jsval \<Rightarrow> session \<Rightarrow> error option \<times> session" where
  "addAction t smry options s =
     (if state s \<noteq> Recording then (None, s)
      else
        case forEachAdd (getProp options ''filesCreated'') (filesCreated s) of
          None \<Rightarrow> (Some TypeError, s)
        | Some created \<Rightarrow>
            let s1 = s\<lparr>filesCreated := created\<rparr> in
            (case forEachAdd (getProp options ''filesModified'') (filesModified s1) of
               None \<Rightarrow> (Some TypeError, s1)
             | Some modified \<Rightarrow>
                 let s2 = s1\<lparr>filesModified := modified\<rparr>;
                     st = ActionStep (uid t) (getTimestamp (now t) s2) (sequenceCounter s2) smry
                            (getProp options ''filesCreated'') (getProp options ''filesModified'')
                            (getProp options ''filesDeleted'') (getProp options ''approach'');
                     s3 = s2\<lparr>sequenceCounter := sequenceCounter s2 + 1\<rparr>
                 in if \<not> stringifies (getProp options ''filesModified'') \<or> \<not> stringifies smry
                    then (Some TypeError, s3)
                    else (None, addStep st s3)))"

definition addTerminal :: "tick \<Rightarrow> jsval \<Rightarrow> jsval \<Rightarrow> jsval \<Rightarrow> session \<Rightarrow> error option \<times> session" where
  "addTerminal t command oc options s =
     (if state s \<noteq> Recording then (None, s)
      else
        let st = TerminalStep (uid t) (getTimestamp (now t) s) (sequenceCounter s) command oc
                   (getProp options ''summary'') (getProp options ''exitCode'');
            s1 = s\<lparr>sequenceCounter := sequenceCounter s + 1\<rparr>
        in (None, addStep st s1))"

definition addNote :: "tick \<Rightarrow> jsval \<Rightarrow> jsval \<Rightarrow> session \<Rightarrow> error option \<times> session" where
  "addNote t content category s =
     (if state s \<noteq> Recording then (None, s)
      else
        let st = NoteStep (uid t) (getTimestamp (now t) s) (sequenceCounter s) content category;
            s1 = s\<lparr>sequenceCounter := sequenceCounter s + 1\<rparr>
        in if \<not> isString content then (Some TypeError, s1)
           else (None, addStep st s1))"

definition addCheckpoint :: "tick \<Rightarrow> jsval \<Rightarrow> jsval \<Rightarrow> session \<Rightarrow> error option \<times> session" where
  "addCheckpoint t name smry s =
     (if state s \<noteq> Recording then (None, s)
      else
        let st = CheckpointStep (uid t) (getTimestamp (now t) s) (sequenceCounter s) name smry;
            s1 = s\<lparr>sequenceCounter := sequenceCounter s + 1\<rparr>
        in (None, addStep st s1))"

text \<open>\<^verbatim>\<open>resolved\<close> has the default \<^verbatim>\<open>false\<close>, which replaces \<^verbatim>\<open>undefined\<close> only.\<close>

definition addError :: "tick \<Rightarrow> jsval \<Rightarrow> jsval \<Rightarrow> jsval \<Rightarrow> session \<Rightarrow> error option \<times> session" where
  "addError t message resolved resolution s =
     (if state s \<noteq> Recording then (None, s)
      else
        let st = ErrorStep (uid t) (getTimestamp (now t) s) (sequenceCounter s) message
                   (if resolved = JUndefined then JBool False else resolved) resolution;
            s1 = s\<lparr>sequenceCounter := sequenceCounter s + 1\<rparr>
        in (None, addStep st s1))"

text \<open>
  \<^verbatim>\<open>stop(outcome?)\<close>. \<open>clock\<close> is the reading of \<^verbatim>\<open>new Date()\<close>, \<open>ed\<close> what
  \<^verbatim>\<open>detectEditor()\<close> finds in the process environment. A field of the argument that
  is the empty string is falsy, so \<^verbatim>\<open>||\<close> replaces it like a missing one.
\<close>

record stopOutcome =
  givenStatus :: string
  givenSummary :: string

definition stop :: "int \<Rightarrow> EditorType \<Rightarrow> stopOutcome option \<Rightarrow> session \<Rightarrow> (error + BuildlogFile) \<times> session" where
  "stop clock ed given s =
     (if state s \<noteq> Recording then (Inl NoRecording, s)
      else
        case startTime s of
          None \<Rightarrow> (Inl TypeError, s)
        | Some t0 \<Rightarrow>
            let hasPrompts = list_ex (\<lambda>x. stepType x = ''prompt'') (stepList s);
                md = \<lparr>metaId = sessionId s, metaTitle = title s, createdAt = t0,
                      durationSeconds = roundSeconds (clock - t0), editor = ed,
                      aiProvider = ''copilot'', replicable = hasPrompts\<rparr>;
                defaultStatus = (if hasPrompts then ''success'' else ''abandoned'');
                defaultSummary = ''Recorded '' @ decimal (length (stepList s)) @ '' steps'';
                oc = \<lparr>status = (case given of
                                   None \<Rightarrow> defaultStatus
                                 | Some g \<Rightarrow> if givenStatus g = [] then defaultStatus
                                             else givenStatus g),
                      summary = (case given of
                                   None \<Rightarrow> defaultSummary
                                 | Some g \<Rightarrow> if givenSummary g = [] then defaultSummary
                                             else givenSummary g),
                      outcomeFilesCreated = length (filesCreated s),
                      outcomeFilesModified = length (filesModified s),
                      canReplicate = hasPrompts\<rparr>;
                buildlog = \<lparr>version = ''2.0.0'', format = ''slim'', metadata = md,
                            artifactSteps = steps s, outcome = oc\<rparr>
            in (Inr buildlog, reset (setState Idle s)))"

text \<open>The query accessors.\<close>

definition getState :: "session \<Rightarrow> RecordingState" where
  "getState s = state s"

definition getDuration :: "int \<Rightarrow> session \<Rightarrow> int" where
  "getDuration clock s = (case startTime s of None \<Rightarrow> 0 | Some t0 \<Rightarrow> clock - t0)"

definition getStepCount :: "session \<Rightarrow> nat" where
  "getStepCount s = length (stepList s)"

definition getPromptCount :: "session \<Rightarrow> nat" where
  "getPromptCount s = length (filter (\<lambda>x. stepType x = ''prompt'') (stepList s))"

definition getTitle :: "session \<Rightarrow> string" where
  "getTitle s = title s"

definition setTitle :: "string \<Rightarrow> session \<Rightarrow> session" where
  "setTitle ttl s = s\<lparr>title := ttl\<rparr>"

definition isRecording :: "session \<Rightarrow> bool" where
  "isRecording s = (state s = Recording)"

record stats =
  totalSteps :: nat
  prompts :: nat
  actions :: nat
  statsNotes :: nat
  others :: int
  statsFilesCreated :: nat
  statsFilesModified :: nat

definition getStats :: "session \<Rightarrow> stats" where
  "getStats s =
     (let p = length (filter (\<lambda>x. stepType x = ''prompt'') (stepList s));
          a = length (filter (\<lambda>x. stepType x = ''action'') (stepList s));
          n = length (filter (\<lambda>x. stepType x = ''note'') (stepList s))
      in \<lparr>totalSteps = length (stepList s), prompts = p, actions = a, statsNotes = n,
          others = int (length (stepList s)) - int p - int a - int n,
          statsFilesCreated = length (filesCreated s),
          statsFilesModified = length (filesModified s)\<rparr>)"

section \<open>Sequences of calls\<close>

text \<open>One call of a mutation method, with its arguments in the order of the signature.\<close>

datatype call =
    AddPrompt tick jsval jsval
  | AddAction tick jsval jsval
  | AddTerminal tick jsval jsval jsval
  | AddNote tick jsval jsval
  | AddCheckpoint tick jsval jsval
  | AddError tick jsval jsval jsval

fun perform :: "call \<Rightarrow> session \<Rightarrow> error option \<times> session" where
  "perform (AddPrompt t content options) s = addPrompt t content options s"
| "perform (AddAction t smry options) s = addAction t smry options s"
| "perform (AddTerminal t command oc options) s = addTerminal t command oc options s"
| "perform (AddNote t content category) s = addNote t content category s"
| "perform (AddCheckpoint t name smry) s = addCheckpoint t name smry s"
| "perform (AddError t message resolved resolution) s = addError t message resolved resolution s"

text \<open>
  The session after a list of calls made one after the other by callers that go on
  after an exception (the feed reader catches it, the commands report it).
\<close>

fun run :: "call list \<Rightarrow> session \<Rightarrow> session" where
  "run [] s = s"
| "run (c # cs) s = run cs (snd (perform c s))"

text \<open>
  A call is accepted when it finds the session recording and returns normally, which
  is when its step has been appended. \<open>acceptedAll\<close>: every call of the list is
  accepted; \<open>acceptedCalls\<close>: those that are, in order.
\<close>

definition accepted :: "call \<Rightarrow> session \<Rightarrow> bool" where
  "accepted c s = (state s = Recording \<and> fst (perform c s) = None)"

fun acceptedAll :: "call list \<Rightarrow> session \<Rightarrow> bool" where
  "acceptedAll [] s = True"
| "acceptedAll (c # cs) s = (accepted c s \<and> acceptedAll cs (snd (perform c s)))"

fun acceptedCalls :: "call list \<Rightarrow> session \<Rightarrow> call list" where
  "acceptedCalls [] s = []"
| "acceptedCalls (c # cs) s =
     (if accepted c s then c # acceptedCalls cs (snd (perform c s))
      else acceptedCalls cs (snd (perform c s)))"

text \<open>\<open>records c st\<close>: the step \<open>st\<close> is the record of the call \<open>c\<close>: its kind, its id, its fields.\<close>

fun records :: "call \<Rightarrow> step \<Rightarrow> bool" where
  "records (AddPrompt t content options) (PromptStep i ts n c ctx intent) =
     (i = uid t \<and> c = content \<and> ctx = getProp options ''context''
      \<and> intent = getProp options ''intent'')"
| "records (AddAction t smry options) (ActionStep i ts n sm fc fm fd ap) =
     (i = uid t \<and> sm = smry \<and> fc = getProp options ''filesCreated''
      \<and> fm = getProp options ''filesModified'' \<and> fd = getProp options ''filesDeleted''
      \<and> ap = getProp options ''approach'')"
| "records (AddTerminal t command oc options) (TerminalStep i ts n c oc' sm ec) =
     (i = uid t \<and> c = command \<and> oc' = oc \<and> sm = getProp options ''summary''
      \<and> ec = getProp options ''exitCode'')"
| "records (AddNote t content category) (NoteStep i ts n c cat) =
     (i = uid t \<and> c = content \<and> cat = category)"
| "records (AddCheckpoint t name smry) (CheckpointStep i ts n nm sm) =
     (i = uid t \<and> nm = name \<and> sm = smry)"
| "records (AddError t message resolved resolution) (ErrorStep i ts n m r res) =
     (i = uid t \<and> m = message
      \<and> r = (if resolved = JUndefined then JBool False else resolved)
      \<and> res = resolution)"
| "records c st = False"

fun isPromptCall :: "call \<Rightarrow> bool" where
  "isPromptCall (AddPrompt t content options) = True"
| "isPromptCall c = False"

text \<open>Any operation on the session, for what may happen to it over its lifetime.\<close>

datatype operation =
    Start tick string "string option"
  | Stop int EditorType "stopOutcome option"
  | Mutation call
  | SetTitle string

fun apply_operation :: "operation \<Rightarrow> session \<Rightarrow> session" where
  "apply_operation (Start t dateLabel ttl) s = snd (start t dateLabel ttl s)"
| "apply_operation (Stop clock ed given) s = snd (stop clock ed given s)"
| "apply_operation (Mutation c) s = snd (perform c s)"
| "apply_operation (SetTitle ttl) s = setTitle ttl s"

fun operations :: "operation list \<Rightarrow> session \<Rightarrow> session" where
  "operations [] s = s"
| "operations (x # xs) s = operations xs (apply_operation x s)"

text \<open>
  The step a call builds when it finds the session recording, and the steps a list of
  calls appends: one for each call that is accepted.
\<close>

fun builtStep :: "call \<Rightarrow> session \<Rightarrow> step" where
  "builtStep (AddPrompt t content options) s =
     PromptStep (uid t) (getTimestamp (now t) s) (sequenceCounter s) content
       (getProp options ''context'') (getProp options ''intent'')"
| "builtStep (AddAction t smry options) s =
     ActionStep (uid t) (getTimestamp (now t) s) (sequenceCounter s) smry
       (getProp options ''filesCreated'') (getProp options ''filesModified'')
       (getProp options ''filesDeleted'') (getProp options ''approach'')"
| "builtStep (AddTerminal t command oc options) s =
     TerminalStep (uid t) (getTimestamp (now t) s) (sequenceCounter s) command oc
       (getProp options ''summary'') (getProp options ''exitCode'')"
| "builtStep (AddNote t content category) s =
     NoteStep (uid t) (getTimestamp (now t) s) (sequenceCounter s) content category"
| "builtStep (AddCheckpoint t name smry) s =
     CheckpointStep (uid t) (getTimestamp (now t) s) (sequenceCounter s) name smry"
| "builtStep (AddError t message resolved resolution) s =
     ErrorStep (uid t) (getTimestamp (now t) s) (sequenceCounter s) message
       (if resolved = JUndefined then JBool False else resolved) resolution"

fun builtSteps :: "call list \<Rightarrow> session \<Rightarrow> step list" where
  "builtSteps [] s = []"
| "builtSteps (c # cs) s =
     (if accepted c s then [builtStep c s] else []) @ builtSteps cs (snd (perform c s))"

text \<open>
  The file paths an action step lists. \<open>pathList\<close> is the declared type of the two
  options, \<^verbatim>\<open>string[] | undefined\<close>.
\<close>

fun listed :: "jsval \<Rightarrow> jsval list" where
  "listed (JArr xs) = xs"
| "listed v = []"

fun createdPaths :: "step \<Rightarrow> jsval set" where
  "createdPaths (ActionStep i t n sm fc fm fd ap) = set (listed fc)"
| "createdPaths st = {}"

fun modifiedPaths :: "step \<Rightarrow> jsval set" where
  "modifiedPaths (ActionStep i t n sm fc fm fd ap) = set (listed fm)"
| "modifiedPaths st = {}"

fun pathList :: "jsval \<Rightarrow> bool" where
  "pathList JUndefined = True"
| "pathList (JArr xs) = list_all isString xs"
| "pathList v = False"

fun typedPaths :: "call \<Rightarrow> bool" where
  "typedPaths (AddAction t smry options) =
     (pathList (getProp options ''filesCreated'') \<and> pathList (getProp options ''filesModified''))"
| "typedPaths c = True"

text \<open>
  The arguments that a method inspects have their declared types: the content of a
  prompt or a note and the summary of an action are strings, the file lists of an
  action are arrays of strings or absent.
\<close>

fun conforms :: "call \<Rightarrow> bool" where
  "conforms (AddPrompt t content options) = isString content"
| "conforms (AddAction t smry options) =
     (isString smry \<and> pathList (getProp options ''filesCreated'')
      \<and> pathList (getProp options ''filesModified''))"
| "conforms (AddNote t content category) = isString content"
| "conforms c = True"

section \<open>The agent feed adapter\<close>

text \<open>
  \<^verbatim>\<open>String.prototype.trim\<close> and \<^verbatim>\<open>split('\n')\<close>. A \<open>char\<close> stands for a code unit;
  the white space and line terminators in its range are the six ASCII ones and the
  no-break space.
\<close>

definition isWhiteSpace :: "char \<Rightarrow> bool" where
  "isWhiteSpace c =
     (c \<in> set [CHR 0x09, CHR 0x0A, CHR 0x0B, CHR 0x0C, CHR 0x0D, CHR 0x20, CHR 0xA0])"

definition trim :: "string \<Rightarrow> string" where
  "trim txt = rev (dropWhile isWhiteSpace (rev (dropWhile isWhiteSpace txt)))"

fun splitLines :: "string \<Rightarrow> string list" where
  "splitLines [] = [] # []"
| "splitLines (c # cs) =
     (if c = CHR 0x0A then [] # splitLines cs
      else (case splitLines cs of [] \<Rightarrow> [c] # [] | l # ls \<Rightarrow> (c # l) # ls))"

record AgentFeedWatcher =
  lastPosition :: nat
  lastMtime :: rat

text \<open>
  \<^verbatim>\<open>addEntryToSession\<close>. Reading \<^verbatim>\<open>entry.type\<close> raises on \<^verbatim>\<open>null\<close>, and the first
  log line converts the type to a string; then the switch, which compares with
  \<^verbatim>\<open>===\<close>. An exception of the session method passes through. The log lines
  and the status bar message after the switch do not touch the session.
\<close>

definition addEntryToSession :: "tick \<Rightarrow> jsval \<Rightarrow> session \<Rightarrow> error option \<times> session" where
  "addEntryToSession t entry s =
     (if entry = JNull \<or> entry = JUndefined then (Some TypeError, s)
      else if \<not> stringifies (getProp entry ''type'') then (Some TypeError, s)
      else if getProp entry ''type'' = JStr ''prompt'' then
        addPrompt t (orElse (getProp entry ''raw'') (getProp entry ''content''))
          (JObj [(''context'', getProp entry ''context''),
                 (''intent'', if truthy (getProp entry ''raw'') then getProp entry ''content''
                              else getProp entry ''intent'')]) s
      else if getProp entry ''type'' = JStr ''action'' then
        addAction t
          (orElse (orElse (getProp entry ''summary'') (getProp entry ''content''))
             (JStr ''Action performed''))
          (JObj [(''filesCreated'', getProp entry ''filesCreated''),
                 (''filesModified'', getProp entry ''filesModified''),
                 (''filesDeleted'', getProp entry ''filesDeleted''),
                 (''approach'', getProp entry ''approach'')]) s
      else if getProp entry ''type'' = JStr ''note'' then
        addNote t (getProp entry ''content'') (getProp entry ''category'') s
      else if getProp entry ''type'' = JStr ''error'' then
        addError t (getProp entry ''message'') (getProp entry ''resolved'')
          (getProp entry ''resolution'') s
      else if getProp entry ''type'' = JStr ''checkpoint'' then
        addCheckpoint t (getProp entry ''name'') (getProp entry ''summary'') s
      else (None, s))"

text \<open>
  The loop of \<^verbatim>\<open>processNewLines\<close>. \<open>parse\<close> is \<^verbatim>\<open>JSON.parse\<close>, \<open>None\<close> where it
  raises a SyntaxError; \<open>env i\<close> is what the clock and the id generator give while
  line \<open>i\<close> is handled. The \<^verbatim>\<open>try\<close> around each line catches whatever the line
  raises, and the session stays as the failed call left it.
\<close>

fun feedLoop :: "(string \<Rightarrow> jsval option) \<Rightarrow> (nat \<Rightarrow> tick) \<Rightarrow> nat \<Rightarrow> string list \<Rightarrow> session \<Rightarrow> session" where
  "feedLoop parse env i [] s = s"
| "feedLoop parse env i (line # rest) s =
     feedLoop parse env (Suc i) rest
       (case parse line of
          None \<Rightarrow> s
        | Some entry \<Rightarrow> snd (addEntryToSession (env i) entry s))"

text \<open>
  \<^verbatim>\<open>processNewLines\<close>. \<open>sess\<close> is what \<^verbatim>\<open>getSession()\<close> returns, \<open>file\<close> what
  \<^verbatim>\<open>readFileSync\<close> returns (\<open>None\<close> where it raises, which the outer \<^verbatim>\<open>try\<close>
  catches).
\<close>

definition processNewLines ::
  "(string \<Rightarrow> jsval option) \<Rightarrow> (nat \<Rightarrow> tick) \<Rightarrow> string option \<Rightarrow> session option
     \<Rightarrow> AgentFeedWatcher \<Rightarrow> AgentFeedWatcher \<times> session option" where
  "processNewLines parse env file sess w =
     (case sess of
        None \<Rightarrow> (w, None)
      | Some s \<Rightarrow>
          if getState s \<noteq> Recording then (w, Some s)
          else
            (case file of
               None \<Rightarrow> (w, Some s)
             | Some content \<Rightarrow>
                 let newContent = drop (lastPosition w) content;
                     w' = w\<lparr>lastPosition := length content\<rparr>
                 in if trim newContent = [] then (w', Some s)
                    else (w', Some (feedLoop parse env 0
                                      (filter (\<lambda>line. trim line \<noteq> []) (splitLines newContent)) s))))"

text \<open>
  The feed format in the words of its description: an entry is well formed when its
  \<^verbatim>\<open>type\<close> is one of the five kinds, and it stands for one call of the method of
  that kind. \<open>feedCalls\<close> collects the calls of the well-formed lines of a batch, in
  order; \<open>newLines\<close> are the non-blank lines appended since the last poll.
\<close>

definition knownTypes :: "string list" where
  "knownTypes = [''prompt'', ''action'', ''note'', ''error'', ''checkpoint'']"

definition wellFormed :: "jsval \<Rightarrow> bool" where
  "wellFormed entry = (getProp entry ''type'' \<in> JStr ` set knownTypes)"

definition wellFormedLine :: "(string \<Rightarrow> jsval option) \<Rightarrow> string \<Rightarrow> bool" where
  "wellFormedLine parse line = (case parse line of None \<Rightarrow> False | Some entry \<Rightarrow> wellFormed entry)"

definition feedCall :: "tick \<Rightarrow> jsval \<Rightarrow> call option" where
  "feedCall t entry =
     (if getProp entry ''type'' = JStr ''prompt'' then
        Some (if truthy (getProp entry ''raw'')
              then AddPrompt t (getProp entry ''raw'')
                     (JObj [(''context'', getProp entry ''context''),
                            (''intent'', getProp entry ''content'')])
              else AddPrompt t (getProp entry ''content'')
                     (JObj [(''context'', getProp entry ''context''),
                            (''intent'', getProp entry ''intent'')]))
      else if getProp entry ''type'' = JStr ''action'' then
        Some (AddAction t
                (if truthy (getProp entry ''summary'') then getProp entry ''summary''
                 else if truthy (getProp entry ''content'') then getProp entry ''content''
                 else JStr ''Action performed'')
                (JObj [(''filesCreated'', getProp entry ''filesCreated''),
                       (''filesModified'', getProp entry ''filesModified''),
                       (''filesDeleted'', getProp entry ''filesDeleted''),
                       (''approach'', getProp entry ''approach'')]))
      else if getProp entry ''type'' = JStr ''note'' then
        Some (AddNote t (getProp entry ''content'') (getProp entry ''category''))
      else if getProp entry ''type'' = JStr ''error'' then
        Some (AddError t (getProp entry ''message'') (getProp entry ''resolved'')
                (getProp entry ''resolution''))
      else if getProp entry ''type'' = JStr ''checkpoint'' then
        Some (AddCheckpoint t (getProp entry ''name'') (getProp entry ''summary''))
      else None)"

fun feedCalls :: "(string \<Rightarrow> jsval option) \<Rightarrow> (nat \<Rightarrow> tick) \<Rightarrow> nat \<Rightarrow> string list \<Rightarrow> call list" where
  "feedCalls parse env i [] = []"
| "feedCalls parse env i (line # rest) =
     (case parse line of
        None \<Rightarrow> []
      | Some entry \<Rightarrow> (case feedCall (env i) entry of None \<Rightarrow> [] | Some c \<Rightarrow> [c]))
     @ feedCalls parse env (Suc i) rest"

definition newLines :: "AgentFeedWatcher \<Rightarrow> string \<Rightarrow> string list" where
  "newLines w content =
     filter (\<lambda>line. trim line \<noteq> []) (splitLines (drop (lastPosition w) content))"

section \<open>Example runs\<close>

text \<open>
  The scenario of the test suite: a session is started, a prompt and an action that
  creates a file are recorded, and the session is stopped.
\<close>

definition demoIdle :: session where
  "demoIdle = newSession ''session-0'' ''/work'' ''work''"

definition demoRecording :: session where
  "demoRecording =
     snd (start \<lparr>uid = ''session-1'', now = 1000\<rparr> ''1/1/2026'' (Some ''T'') demoIdle)"

definition demoCalls :: "call list" where
  "demoCalls =
     [AddPrompt \<lparr>uid = ''a'', now = 2600\<rparr> (JStr ''Create a hello world function'') JUndefined,
      AddAction \<lparr>uid = ''b'', now = 3000\<rparr> (JStr ''Created hello.js'')
        (JObj [(''filesCreated'', JArr [JStr ''hello.js''])])]"

text \<open>A session without a prompt: a manual edit and a note.\<close>

definition demoManual :: "call list" where
  "demoManual =
     [AddAction \<lparr>uid = ''g'', now = 2000\<rparr> (JStr ''Manual edit'') JUndefined,
      AddNote \<lparr>uid = ''h'', now = 3000\<rparr> (JStr ''Fixed a typo'') JUndefined]"

text \<open>Two actions that both report a change to the same file.\<close>

definition demoEdits :: "call list" where
  "demoEdits =
     [AddAction \<lparr>uid = ''c'', now = 2000\<rparr> (JStr ''Edited app.js'')
        (JObj [(''filesModified'', JArr [JStr ''app.js''])]),
      AddAction \<lparr>uid = ''d'', now = 4000\<rparr> (JStr ''Edited app.js again'')
        (JObj [(''filesModified'', JArr [JStr ''app.js''])])]"

text \<open>The first scenario as a history of the session, and a second recording after it.\<close>

definition demoHistory :: "operation list" where
  "demoHistory =
     Start \<lparr>uid = ''session-1'', now = 1000\<rparr> ''1/1/2026'' (Some ''T'') # map Mutation demoCalls"

definition demoLater :: "operation list" where
  "demoLater =
     [Mutation (AddNote \<lparr>uid = ''e'', now = 6000\<rparr> (JStr ''too late'') JUndefined),
      Start \<lparr>uid = ''session-2'', now = 7000\<rparr> ''1/1/2026'' None,
      Mutation (AddNote \<lparr>uid = ''f'', now = 8000\<rparr> (JStr ''second run'') JUndefined),
      Stop 9000 Vscode None]"

text \<open>
  A batch of the agent feed. Each line of \<open>demoFeed\<close> stands for the JSON text that
  \<open>demoParse\<close> turns into the entry given for it; \<^verbatim>\<open>not json\<close> does not parse. The
  three entries below are prompt entries with a raw text, without one, and with an
  empty one.
\<close>

definition demoParse :: "string \<Rightarrow> jsval option" where
  "demoParse line =
     (if line = ''prompt line'' then
        Some (JObj [(''type'', JStr ''prompt''), (''content'', JStr ''Build a CTA component'')])
      else if line = ''mystery line'' then
        Some (JObj [(''type'', JStr ''mystery''), (''content'', JStr ''?'')])
      else if line = ''null'' then Some JNull
      else if line = ''note line'' then
        Some (JObj [(''type'', JStr ''note''), (''content'', JStr ''User wanted hover effects'')])
      else None)"

definition demoFeed :: string where
  "demoFeed = ''prompt line\<newline>not json\<newline>  \<newline>mystery line\<newline>null\<newline>note line\<newline>''"

definition demoEnv :: "nat \<Rightarrow> tick" where
  "demoEnv i = \<lparr>uid = ''feed-'' @ decimal i, now = 2000 + 1000 * int i\<rparr>"

definition demoWatcher :: AgentFeedWatcher where
  "demoWatcher = \<lparr>lastPosition = 0, lastMtime = 0\<rparr>"

definition rawEntry :: jsval where
  "rawEntry =
     JObj [(''type'', JStr ''prompt''), (''raw'', JStr ''Please build a CTA component''),
           (''content'', JStr ''Build a CTA'')]"

definition plainEntry :: jsval where
  "plainEntry =
     JObj [(''type'', JStr ''prompt''), (''content'', JStr ''Build a CTA''),
           (''intent'', JStr ''ui'')]"

definition emptyRawEntry :: jsval where
  "emptyRawEntry =
     JObj [(''type'', JStr ''prompt''), (''raw'', JStr ''''), (''content'', JStr ''Build a CTA''),
           (''intent'', JStr ''ui'')]"

text \<open>
  Two feed batches with an entry that lacks what its kind needs: a prompt without a
  content followed by a note, and an action whose \<^verbatim>\<open>filesModified\<close> is a string. Each
  line again stands for the JSON text of the entry given for it; \<open>driftCalls\<close> and
  \<open>halfCalls\<close> are the calls the adapter makes for them.
\<close>

definition driftParse :: "string \<Rightarrow> jsval option" where
  "driftParse line =
     (if line = ''bare prompt line'' then Some (JObj [(''type'', JStr ''prompt'')])
      else if line = ''note line'' then
        Some (JObj [(''type'', JStr ''note''), (''content'', JStr ''Fixed a typo'')])
      else None)"

definition driftFeed :: string where
  "driftFeed = ''bare prompt line\<newline>note line\<newline>''"

definition driftCalls :: "call list" where
  "driftCalls =
     [AddPrompt (demoEnv 0) JUndefined (JObj [(''context'', JUndefined), (''intent'', JUndefined)]),
      AddNote (demoEnv 1) (JStr ''Fixed a typo'') JUndefined]"

definition halfParse :: "string \<Rightarrow> jsval option" where
  "halfParse line =
     (if line = ''action line'' then
        Some (JObj [(''type'', JStr ''action''), (''summary'', JStr ''Created a.js''),
                    (''filesCreated'', JArr [JStr ''a.js'']), (''filesModified'', JStr ''oops'')])
      else None)"

definition halfFeed :: string where
  "halfFeed = ''action line\<newline>''"

definition halfCalls :: "call list" where
  "halfCalls =
     [AddAction (demoEnv 0) (JStr ''Created a.js'')
        (JObj [(''filesCreated'', JArr [JStr ''a.js'']), (''filesModified'', JStr ''oops''),
               (''filesDeleted'', JUndefined), (''approach'', JUndefined)])]"

section \<open>Properties of the session\<close>

lemmas method_defs =
  addPrompt_def addAction_def addTerminal_def addNote_def addCheckpoint_def addError_def

lemmas eval_defs =
  demoIdle_def demoRecording_def demoCalls_def accepted_def start_def newSession_def
  setState_def freshSteps_def method_defs Let_def addStep_def getProp_def forEachAdd_def
  setAdd_def stepList_def getTimestamp_def roundSeconds_def

lemma perform_idle: "state s \<noteq> Recording \<Longrightarrow> perform c s = (None, s)"
  by (cases c) (simp_all add: method_defs)

lemma perform_frame:
  "state (snd (perform c s)) = state s"
  "startTime (snd (perform c s)) = startTime s"
  "steps (snd (perform c s)) = steps s"
  "nextArray (snd (perform c s)) = nextArray s"
  "title (snd (perform c s)) = title s"
  "sessionId (snd (perform c s)) = sessionId s"
  by (cases c; simp add: method_defs Let_def addStep_def split: option.splits)+

lemma builtStep_props:
  "records c (builtStep c s)"
  "sequence (builtStep c s) = sequenceCounter s"
  "stepId (builtStep c s) = (case c of AddPrompt t _ _ \<Rightarrow> uid t | AddAction t _ _ \<Rightarrow> uid t | AddTerminal t _ _ _ \<Rightarrow> uid t | AddNote t _ _ \<Rightarrow> uid t | AddCheckpoint t _ _ \<Rightarrow> uid t | AddError t _ _ _ \<Rightarrow> uid t)"
  "(stepType (builtStep c s) = ''prompt'') = isPromptCall c"
  by (cases c; simp)+

lemma perform_accepted:
  assumes "accepted c s"
  shows "arrays (snd (perform c s)) = (arrays s)(steps s := arrays s (steps s) @ [builtStep c s])"
    and "sequenceCounter (snd (perform c s)) = Suc (sequenceCounter s)"
  using assms
  by (cases c; simp add: accepted_def method_defs Let_def addStep_def getTimestamp_def split: option.splits if_splits)+

lemma perform_not_accepted:
  assumes "\<not> accepted c s"
  shows "arrays (snd (perform c s)) = arrays s"
  using assms
  by (cases c; auto simp: accepted_def method_defs Let_def addStep_def split: option.splits if_splits)

lemma run_frame:
  "state (run cs s) = state s"
  "startTime (run cs s) = startTime s"
  "steps (run cs s) = steps s"
  "nextArray (run cs s) = nextArray s"
  "title (run cs s) = title s"
  "sessionId (run cs s) = sessionId s"
  by (induction cs arbitrary: s; simp add: perform_frame)+

lemma stepList_perform:
  "stepList (snd (perform c s)) = stepList s @ (if accepted c s then [builtStep c s] else [])"
  by (simp add: stepList_def perform_frame perform_accepted perform_not_accepted)

lemma stepList_run: "stepList (run cs s) = stepList s @ builtSteps cs s"
  by (induction cs arbitrary: s) (simp_all add: stepList_perform)

lemma builtSteps_records: "list_all2 records (acceptedCalls cs s) (builtSteps cs s)"
  by (induction cs arbitrary: s) (simp_all add: builtStep_props)

lemma builtSteps_prompt:
  "list_ex (\<lambda>x. stepType x = ''prompt'') (builtSteps cs s) = list_ex isPromptCall (acceptedCalls cs s)"
  by (induction cs arbitrary: s) (simp_all add: builtStep_props)

lemma acceptedAll_calls: "acceptedAll cs s \<Longrightarrow> acceptedCalls cs s = cs"
  by (induction cs arbitrary: s) simp_all

lemma acceptedAll_counter:
  "acceptedAll cs s \<Longrightarrow> sequenceCounter (run cs s) = sequenceCounter s + length cs"
  by (induction cs arbitrary: s) (simp_all add: perform_accepted)

lemma acceptedAll_sequence:
  "acceptedAll cs s \<Longrightarrow> i < length cs \<Longrightarrow> sequence (builtSteps cs s ! i) = sequenceCounter s + i"
proof (induction cs arbitrary: s i)
  case Nil
  then show ?case by simp
next
  case (Cons c cs)
  then show ?case
    by (cases i) (simp_all add: builtStep_props perform_accepted)
qed

lemma acceptedAll_length: "acceptedAll cs s \<Longrightarrow> length (builtSteps cs s) = length cs"
  by (induction cs arbitrary: s) simp_all

lemma acceptedAll_take: "acceptedAll cs s \<Longrightarrow> acceptedAll (take k cs) s"
proof (induction cs arbitrary: s k)
  case Nil
  then show ?case by simp
next
  case (Cons c cs)
  then show ?case by (cases k) simp_all
qed

lemma start_ok:
  assumes "fst (start t d ttl s0) = None"
  shows "state (snd (start t d ttl s0)) = Recording"
    and "startTime (snd (start t d ttl s0)) = Some (now t)"
    and "stepList (snd (start t d ttl s0)) = []"
    and "sequenceCounter (snd (start t d ttl s0)) = 0"
    and "filesCreated (snd (start t d ttl s0)) = []"
    and "filesModified (snd (start t d ttl s0)) = []"
  using assms
  by (simp_all add: start_def setState_def freshSteps_def stepList_def split: if_splits)


lemma start_fresh:
  assumes "fst (start t d ttl s0) = None"
  shows "steps (snd (start t d ttl s0)) < nextArray (snd (start t d ttl s0))"
  using assms
  by (simp add: start_def setState_def freshSteps_def split: if_splits)

lemma stop_recording:
  assumes "state s = Recording" and "startTime s = Some t0" and "steps s < nextArray s"
  shows "\<exists>a. stop clock ed given s = (Inr a, reset (setState Idle s))
           \<and> artifactSteps a = steps s
           \<and> arrays (reset (setState Idle s)) (artifactSteps a) = stepList s
           \<and> replicable (metadata a) = list_ex (\<lambda>x. stepType x = ''prompt'') (stepList s)
           \<and> canReplicate (outcome a) = list_ex (\<lambda>x. stepType x = ''prompt'') (stepList s)
           \<and> outcomeFilesCreated (outcome a) = length (filesCreated s)
           \<and> outcomeFilesModified (outcome a) = length (filesModified s)"
  using assms
  by (simp add: stop_def Let_def reset_def setState_def freshSteps_def stepList_def)


lemma demo_start:
  "start \<lparr>uid = ''session-1'', now = 1000\<rparr> ''1/1/2026'' (Some ''T'') demoIdle = (None, demoRecording)"
  by (simp add: demoRecording_def demoIdle_def start_def newSession_def)

lemma demo_accepted: "acceptedAll demoCalls demoRecording"
  by (simp add: eval_defs)

lemma demo_manual_accepted: "acceptedAll demoManual demoRecording"
  by (simp add: demoManual_def eval_defs)

text \<open>
  A call that is not accepted while the session is recording: the content is not a
  string, the log line raises, and the counter has already been incremented.
\<close>

lemma addPrompt_not_string:
  assumes "state s = Recording" and "\<not> isString content"
  shows "addPrompt t content options s
           = (Some TypeError, s\<lparr>sequenceCounter := sequenceCounter s + 1\<rparr>)"
  using assms by (simp add: addPrompt_def Let_def)

lemma addNote_not_string:
  assumes "state s = Recording" and "\<not> isString content"
  shows "addNote t content category s
           = (Some TypeError, s\<lparr>sequenceCounter := sequenceCounter s + 1\<rparr>)"
  using assms by (simp add: addNote_def Let_def)

text \<open>
  Runs in which every call is accepted. A session is started, a sequence of mutation
  calls follows, each of them accepted, and the session is stopped. Then the artifact's
  step array holds the records of exactly these calls in the order they were made, the
  sequence numbers in the array are \<open>0, 1, 2, ...\<close>, and after every prefix of the calls
  the session is recording with as many steps as its sequence counter says.
\<close>

lemma accepted_run_in_order:
  assumes "start t d ttl s0 = (None, s1)"
    and "acceptedAll cs s1"
  shows "\<exists>a s'. stop clock ed given (run cs s1) = (Inr a, s')
           \<and> list_all2 records cs (arrays s' (artifactSteps a))
           \<and> map sequence (arrays s' (artifactSteps a)) = [0..<length cs]
           \<and> (\<forall>k. state (run (take k cs) s1) = Recording
                  \<and> length (stepList (run (take k cs) s1)) = sequenceCounter (run (take k cs) s1))"
proof -
  have f: "fst (start t d ttl s0) = None" and s1: "s1 = snd (start t d ttl s0)"
    using assms(1) by simp_all
  let ?s = "run cs s1"
  have rec: "state ?s = Recording" and st: "startTime ?s = Some (now t)"
    and fr: "steps ?s < nextArray ?s"
    using f by (simp_all add: s1 run_frame start_ok start_fresh)
  from stop_recording [OF rec st fr, of clock ed given]
  obtain a where a: "stop clock ed given ?s = (Inr a, reset (setState Idle ?s))"
    and arr: "arrays (reset (setState Idle ?s)) (artifactSteps a) = stepList ?s"
    by blast
  have sl: "stepList ?s = builtSteps cs s1"
    using f by (simp add: s1 stepList_run start_ok)
  have ord: "list_all2 records cs (builtSteps cs s1)"
    using builtSteps_records [of cs s1] assms(2) by (simp add: acceptedAll_calls)
  have sq: "map sequence (builtSteps cs s1) = [0..<length cs]"
  proof (rule nth_equalityI)
    show "length (map sequence (builtSteps cs s1)) = length [0..<length cs]"
      using assms(2) by (simp add: acceptedAll_length)
  next
    fix i assume "i < length (map sequence (builtSteps cs s1))"
    then have i: "i < length cs" using assms(2) by (simp add: acceptedAll_length)
    then show "map sequence (builtSteps cs s1) ! i = [0..<length cs] ! i"
      using assms(2) f acceptedAll_sequence [of cs s1 i]
      by (simp add: acceptedAll_length s1 start_ok)
  qed
  have inv: "state (run (take k cs) s1) = Recording
      \<and> length (stepList (run (take k cs) s1)) = sequenceCounter (run (take k cs) s1)" for k
  proof -
    have acc: "acceptedAll (take k cs) s1" using assms(2) by (rule acceptedAll_take)
    show ?thesis
      using f acc
      by (simp add: s1 run_frame start_ok stepList_run acceptedAll_length acceptedAll_counter)
  qed
  show ?thesis
    using a arr sl ord sq inv by auto
qed

lemma started:
  assumes "start t d ttl s0 = (None, s1)"
  shows "state s1 = Recording" and "startTime s1 = Some (now t)" and "stepList s1 = []"
    and "sequenceCounter s1 = 0" and "filesCreated s1 = []" and "filesModified s1 = []"
    and "steps s1 < nextArray s1"
proof -
  have f: "fst (start t d ttl s0) = None" and s1: "s1 = snd (start t d ttl s0)"
    using assms by simp_all
  show "state s1 = Recording" and "startTime s1 = Some (now t)" and "stepList s1 = []"
    and "sequenceCounter s1 = 0" and "filesCreated s1 = []" and "filesModified s1 = []"
    and "steps s1 < nextArray s1"
    using f by (simp_all add: s1 start_ok start_fresh)
qed

lemma stop_outcome:
  assumes "state s = Recording" and "startTime s = Some t0"
  shows "\<exists>a. stop clock ed given s = (Inr a, reset (setState Idle s))
           \<and> status (outcome a) =
               (case given of
                  None \<Rightarrow> if list_ex (\<lambda>x. stepType x = ''prompt'') (stepList s)
                          then ''success'' else ''abandoned''
                | Some g \<Rightarrow> if givenStatus g = []
                            then (if list_ex (\<lambda>x. stepType x = ''prompt'') (stepList s)
                                  then ''success'' else ''abandoned'')
                            else givenStatus g)
           \<and> summary (outcome a) =
               (case given of
                  None \<Rightarrow> ''Recorded '' @ decimal (length (stepList s)) @ '' steps''
                | Some g \<Rightarrow> if givenSummary g = []
                            then ''Recorded '' @ decimal (length (stepList s)) @ '' steps''
                            else givenSummary g)
           \<and> replicable (metadata a) = list_ex (\<lambda>x. stepType x = ''prompt'') (stepList s)
           \<and> canReplicate (outcome a) = list_ex (\<lambda>x. stepType x = ''prompt'') (stepList s)"
  using assms
  by (cases given) (simp_all add: stop_def Let_def)

lemma builtSteps_length: "length (builtSteps cs s) = length (acceptedCalls cs s)"
  by (induction cs arbitrary: s) simp_all

text \<open>
  C2. A session is started, any mutation calls follow, and the session is stopped. The
  artifact's \<^verbatim>\<open>metadata.replicable\<close> and \<^verbatim>\<open>outcome.canReplicate\<close> are true exactly
  when one of the accepted calls was an \<^verbatim>\<open>addPrompt\<close>; and when none was and
  \<^verbatim>\<open>stop\<close> got no outcome, the status is \<^verbatim>\<open>abandoned\<close>.
\<close>

theorem replicable_iff_prompt_accepted:
  assumes "start t d ttl s0 = (None, s1)"
  shows "\<exists>a s'. stop clock ed given (run cs s1) = (Inr a, s')
           \<and> replicable (metadata a) = list_ex isPromptCall (acceptedCalls cs s1)
           \<and> canReplicate (outcome a) = list_ex isPromptCall (acceptedCalls cs s1)
           \<and> (\<not> list_ex isPromptCall (acceptedCalls cs s1) \<and> given = None
                \<longrightarrow> status (outcome a) = ''abandoned'')"
proof -
  let ?s = "run cs s1"
  have rec: "state ?s = Recording" and st: "startTime ?s = Some (now t)"
    using started [OF assms] by (simp_all add: run_frame)
  have sl: "stepList ?s = builtSteps cs s1"
    using started [OF assms] by (simp add: stepList_run)
  from stop_outcome [OF rec st, of clock ed given] show ?thesis
    by (auto simp: sl builtSteps_prompt)
qed

text \<open>
  In the example run a prompt is accepted and the artifact is replicable.
\<close>

theorem replicable_iff_prompt_accepted_witness:
  "start \<lparr>uid = ''session-1'', now = 1000\<rparr> ''1/1/2026'' (Some ''T'') demoIdle = (None, demoRecording)
   \<and> list_ex isPromptCall (acceptedCalls demoCalls demoRecording)
   \<and> (\<exists>a s'. stop 5000 Vscode None (run demoCalls demoRecording) = (Inr a, s')
        \<and> replicable (metadata a) \<and> canReplicate (outcome a))
   \<and> \<not> list_ex isPromptCall (acceptedCalls demoManual demoRecording)
   \<and> (\<exists>a s'. stop 5000 Vscode None (run demoManual demoRecording) = (Inr a, s')
        \<and> \<not> replicable (metadata a) \<and> \<not> canReplicate (outcome a)
        \<and> status (outcome a) = ''abandoned'')"
proof -
  have p: "list_ex isPromptCall (acceptedCalls demoCalls demoRecording)"
    using demo_accepted by (simp add: acceptedAll_calls) (simp add: demoCalls_def)
  have q: "\<not> list_ex isPromptCall (acceptedCalls demoManual demoRecording)"
    using demo_manual_accepted by (simp add: acceptedAll_calls) (simp add: demoManual_def)
  have a: "\<exists>a s'. stop 5000 Vscode None (run demoCalls demoRecording) = (Inr a, s')
        \<and> replicable (metadata a) \<and> canReplicate (outcome a)"
    using replicable_iff_prompt_accepted [OF demo_start, of 5000 Vscode None demoCalls] p
    by auto
  have b: "\<exists>a s'. stop 5000 Vscode None (run demoManual demoRecording) = (Inr a, s')
        \<and> \<not> replicable (metadata a) \<and> \<not> canReplicate (outcome a)
        \<and> status (outcome a) = ''abandoned''"
    using replicable_iff_prompt_accepted [OF demo_start, of 5000 Vscode None demoManual] q
    by auto
  show ?thesis
    using demo_start p q a b by blast
qed

text \<open>
  C3. A mutation call that finds the session in any state other than recording (idle
  or paused) returns without an exception and leaves the session exactly as it was: no
  step, no counter, no file set and no notification changes. Whatever happens to the
  session afterwards, and every artifact it returns, is therefore what it would have
  been without the call.
\<close>

theorem mutation_outside_recording_is_noop:
  assumes "state s \<noteq> Recording"
  shows "perform c s = (None, s)
         \<and> stop clock ed given (operations later (snd (perform c s)))
             = stop clock ed given (operations later s)"
  using assms by (simp add: perform_idle)

theorem mutation_outside_recording_is_noop_witness:
  "state demoIdle \<noteq> Recording
   \<and> perform (AddPrompt \<lparr>uid = ''a'', now = 10\<rparr> (JStr ''dropped'') JUndefined) demoIdle
       = (None, demoIdle)"
proof -
  have h: "state demoIdle \<noteq> Recording"
    by (simp add: demoIdle_def newSession_def)
  from mutation_outside_recording_is_noop [OF h] h show ?thesis by blast
qed

text \<open>
  C4. \<^verbatim>\<open>start\<close> fails when the session is recording, \<^verbatim>\<open>stop\<close> fails when it is
  not, and both leave the session unchanged when they fail. After a \<^verbatim>\<open>stop\<close> that
  returned an artifact a second \<^verbatim>\<open>stop\<close> fails, and the store it leaves still holds
  the steps of that artifact.
\<close>

theorem protocol_violations_fail:
  "(state s = Recording \<longrightarrow> start t d ttl s = (Some AlreadyRecording, s))
   \<and> (state s \<noteq> Recording \<longrightarrow> stop clock ed given s = (Inl NoRecording, s))
   \<and> (stop clock ed given s = (Inr a, s') \<longrightarrow>
        stop clock2 ed2 given2 s' = (Inl NoRecording, s')
        \<and> arrays (snd (stop clock2 ed2 given2 s')) (artifactSteps a) = arrays s' (artifactSteps a))"
proof -
  have "state s' \<noteq> Recording" if "stop clock ed given s = (Inr a, s')"
    using that
    by (auto simp: stop_def Let_def reset_def setState_def freshSteps_def
        split: if_splits option.splits)
  then show ?thesis
    by (simp add: start_def stop_def)
qed

lemma demo_stop:
  "\<exists>a. stop 5000 Vscode None (run demoCalls demoRecording)
        = (Inr a, reset (setState Idle (run demoCalls demoRecording)))"
proof -
  have "state (run demoCalls demoRecording) = Recording"
    and "startTime (run demoCalls demoRecording) = Some 1000"
    using started [OF demo_start] by (simp_all add: run_frame)
  from stop_outcome [OF this, of 5000 Vscode None] show ?thesis by blast
qed

theorem protocol_violations_fail_witness:
  "state demoRecording = Recording
   \<and> start \<lparr>uid = ''again'', now = 2000\<rparr> ''1/1/2026'' None demoRecording
       = (Some AlreadyRecording, demoRecording)
   \<and> state demoIdle \<noteq> Recording
   \<and> stop 5000 Vscode None demoIdle = (Inl NoRecording, demoIdle)
   \<and> (\<exists>a s'. stop 5000 Vscode None (run demoCalls demoRecording) = (Inr a, s')
        \<and> stop 6000 Vscode None s' = (Inl NoRecording, s'))"
proof -
  have r: "state demoRecording = Recording"
    using started [OF demo_start] by simp
  have i: "state demoIdle \<noteq> Recording"
    by (simp add: demoIdle_def newSession_def)
  obtain a where a: "stop 5000 Vscode None (run demoCalls demoRecording)
        = (Inr a, reset (setState Idle (run demoCalls demoRecording)))"
    using demo_stop by blast
  have p1: "start \<lparr>uid = ''again'', now = 2000\<rparr> ''1/1/2026'' None demoRecording
       = (Some AlreadyRecording, demoRecording)"
    using r protocol_violations_fail [of demoRecording] by blast
  have p2: "stop 5000 Vscode None demoIdle = (Inl NoRecording, demoIdle)"
    using i protocol_violations_fail [of demoIdle] by blast
  have p3: "stop 6000 Vscode None (reset (setState Idle (run demoCalls demoRecording)))
       = (Inl NoRecording, reset (setState Idle (run demoCalls demoRecording)))"
    using a protocol_violations_fail [of "run demoCalls demoRecording"] by blast
  show ?thesis
    using r i a p1 p2 p3 by blast
qed

lemma stop_after_run:
  assumes "start t d ttl s0 = (None, s1)"
  shows "\<exists>a. stop clock ed given (run cs s1) = (Inr a, reset (setState Idle (run cs s1)))
           \<and> status (outcome a) =
               (case given of
                  None \<Rightarrow> if list_ex isPromptCall (acceptedCalls cs s1)
                          then ''success'' else ''abandoned''
                | Some g \<Rightarrow> if givenStatus g = []
                            then (if list_ex isPromptCall (acceptedCalls cs s1)
                                  then ''success'' else ''abandoned'')
                            else givenStatus g)
           \<and> summary (outcome a) =
               (case given of
                  None \<Rightarrow> ''Recorded '' @ decimal (length (acceptedCalls cs s1)) @ '' steps''
                | Some g \<Rightarrow> if givenSummary g = []
                            then ''Recorded '' @ decimal (length (acceptedCalls cs s1)) @ '' steps''
                            else givenSummary g)"
proof -
  let ?s = "run cs s1"
  have rec: "state ?s = Recording" and st: "startTime ?s = Some (now t)"
    using started [OF assms] by (simp_all add: run_frame)
  have sl: "stepList ?s = builtSteps cs s1"
    using started [OF assms] by (simp add: stepList_run)
  have p: "list_ex (\<lambda>x. stepType x = ''prompt'') (stepList ?s)
      = list_ex isPromptCall (acceptedCalls cs s1)"
    by (simp add: sl builtSteps_prompt)
  have l: "length (stepList ?s) = length (acceptedCalls cs s1)"
    by (simp add: sl builtSteps_length)
  from stop_outcome [OF rec st, of clock ed given] show ?thesis
    unfolding p l by blast
qed

lemma decimal_digit: "n < 10 \<Longrightarrow> decimal n = [''0123456789'' ! n]"
  by (simp add: decimal.simps)

text \<open>
  C6, as the code has it. A session is started, any mutation calls follow, and the
  session is stopped. When \<^verbatim>\<open>stop\<close> is given an outcome, a status that is not the
  empty string and a summary that is not the empty string are used as they are. When
  the argument is omitted, the status is \<^verbatim>\<open>success\<close> if an \<^verbatim>\<open>addPrompt\<close> call was
  accepted and \<^verbatim>\<open>abandoned\<close> otherwise, and the summary is \<^verbatim>\<open>Recorded N steps\<close>
  with \<open>N\<close> the number of accepted calls.
\<close>

theorem outcome_given_or_default:
  assumes "start t d ttl s0 = (None, s1)"
  shows "\<exists>a s'. stop clock ed given (run cs s1) = (Inr a, s')
           \<and> (\<forall>g. given = Some g \<longrightarrow>
                 (givenStatus g \<noteq> [] \<longrightarrow> status (outcome a) = givenStatus g)
                 \<and> (givenSummary g \<noteq> [] \<longrightarrow> summary (outcome a) = givenSummary g))
           \<and> (given = None \<longrightarrow>
                 status (outcome a) =
                   (if list_ex isPromptCall (acceptedCalls cs s1) then ''success'' else ''abandoned'')
                 \<and> summary (outcome a) =
                     ''Recorded '' @ decimal (length (acceptedCalls cs s1)) @ '' steps'')"
proof -
  from stop_after_run [OF assms, of clock ed given cs]
  obtain a where "stop clock ed given (run cs s1) = (Inr a, reset (setState Idle (run cs s1)))"
    and "status (outcome a) =
               (case given of
                  None \<Rightarrow> if list_ex isPromptCall (acceptedCalls cs s1)
                          then ''success'' else ''abandoned''
                | Some g \<Rightarrow> if givenStatus g = []
                            then (if list_ex isPromptCall (acceptedCalls cs s1)
                                  then ''success'' else ''abandoned'')
                            else givenStatus g)"
    and "summary (outcome a) =
               (case given of
                  None \<Rightarrow> ''Recorded '' @ decimal (length (acceptedCalls cs s1)) @ '' steps''
                | Some g \<Rightarrow> if givenSummary g = []
                            then ''Recorded '' @ decimal (length (acceptedCalls cs s1)) @ '' steps''
                            else givenSummary g)"
    by blast
  then show ?thesis
    by (cases given) simp_all
qed

theorem outcome_given_or_default_witness:
  "start \<lparr>uid = ''session-1'', now = 1000\<rparr> ''1/1/2026'' (Some ''T'') demoIdle = (None, demoRecording)
   \<and> (\<exists>a s'. stop 5000 Vscode (Some \<lparr>givenStatus = ''partial'', givenSummary = ''Half done''\<rparr>)
                 (run demoCalls demoRecording) = (Inr a, s')
        \<and> status (outcome a) = ''partial'' \<and> summary (outcome a) = ''Half done'')
   \<and> (\<exists>a s'. stop 5000 Vscode None (run demoCalls demoRecording) = (Inr a, s')
        \<and> status (outcome a) = ''success'' \<and> summary (outcome a) = ''Recorded 2 steps'')"
proof -
  have ac: "acceptedCalls demoCalls demoRecording = demoCalls"
    using demo_accepted by (rule acceptedAll_calls)
  have d: "decimal 2 = ''2''"
    by (simp add: decimal_digit)
  have p: "list_ex isPromptCall demoCalls" and l: "length demoCalls = 2"
    by (simp_all add: demoCalls_def)
  have a: "\<exists>a s'. stop 5000 Vscode (Some \<lparr>givenStatus = ''partial'', givenSummary = ''Half done''\<rparr>)
                 (run demoCalls demoRecording) = (Inr a, s')
        \<and> status (outcome a) = ''partial'' \<and> summary (outcome a) = ''Half done''"
    using outcome_given_or_default [OF demo_start, of 5000 Vscode
        "Some \<lparr>givenStatus = ''partial'', givenSummary = ''Half done''\<rparr>" demoCalls]
    by simp
  have b: "\<exists>a s'. stop 5000 Vscode None (run demoCalls demoRecording) = (Inr a, s')
        \<and> status (outcome a) = ''success'' \<and> summary (outcome a) = ''Recorded 2 steps''"
    using outcome_given_or_default [OF demo_start, of 5000 Vscode None demoCalls]
    by (simp add: ac d p l)
  show ?thesis
    using demo_start a b by blast
qed

text \<open>
  C6 as it is stated fails where a given field is the empty string: stopping the
  freshly started example session with the summary \<^verbatim>\<open>''\<close> returns an artifact whose
  summary is \<^verbatim>\<open>Recorded 0 steps\<close>, not the given one.
\<close>

theorem outcome_given_empty_summary_counterexample:
  "\<not> isl (fst (stop 5000 Vscode (Some \<lparr>givenStatus = ''failure'', givenSummary = ''''\<rparr>) demoRecording))
   \<and> status (outcome (projr (fst (stop 5000 Vscode
         (Some \<lparr>givenStatus = ''failure'', givenSummary = ''''\<rparr>) demoRecording)))) = ''failure''
   \<and> summary (outcome (projr (fst (stop 5000 Vscode
         (Some \<lparr>givenStatus = ''failure'', givenSummary = ''''\<rparr>) demoRecording)))) = ''Recorded 0 steps''
   \<and> summary (outcome (projr (fst (stop 5000 Vscode
         (Some \<lparr>givenStatus = ''failure'', givenSummary = ''''\<rparr>) demoRecording))))
       \<noteq> givenSummary \<lparr>givenStatus = ''failure'', givenSummary = ''''\<rparr>"
proof -
  have "state demoRecording = Recording" and "startTime demoRecording = Some 1000"
    and sl: "stepList demoRecording = []"
    using started [OF demo_start] by simp_all
  from stop_outcome [OF this(1,2), of 5000 Vscode
      "Some \<lparr>givenStatus = ''failure'', givenSummary = ''''\<rparr>"]
  obtain a where a: "stop 5000 Vscode (Some \<lparr>givenStatus = ''failure'', givenSummary = ''''\<rparr>)
        demoRecording = (Inr a, reset (setState Idle demoRecording))"
    and st: "status (outcome a) = ''failure''"
    and su: "summary (outcome a) = ''Recorded '' @ decimal (length (stepList demoRecording)) @ '' steps''"
    by auto
  have d: "decimal 0 = ''0''"
    by (simp add: decimal_digit)
  show ?thesis
    by (simp add: a st su sl d)
qed

text \<open>
  C10. When \<^verbatim>\<open>stop\<close> is given an outcome whose status is the empty string, the
  artifact's status is the default computed from replicability; when its summary is
  the empty string, the artifact's summary is \<^verbatim>\<open>Recorded N steps\<close>. Neither field of
  the artifact is ever the empty string.
\<close>

theorem empty_outcome_field_is_absent:
  assumes "start t d ttl s0 = (None, s1)"
  shows "\<exists>a s'. stop clock ed (Some g) (run cs s1) = (Inr a, s')
           \<and> (givenStatus g = [] \<longrightarrow>
                 status (outcome a) =
                   (if list_ex isPromptCall (acceptedCalls cs s1) then ''success'' else ''abandoned''))
           \<and> (givenSummary g = [] \<longrightarrow>
                 summary (outcome a) =
                   ''Recorded '' @ decimal (length (acceptedCalls cs s1)) @ '' steps'')
           \<and> status (outcome a) \<noteq> [] \<and> summary (outcome a) \<noteq> []"
proof -
  from stop_after_run [OF assms, of clock ed "Some g" cs]
  obtain a where "stop clock ed (Some g) (run cs s1) = (Inr a, reset (setState Idle (run cs s1)))"
    and "status (outcome a) =
           (if givenStatus g = []
            then (if list_ex isPromptCall (acceptedCalls cs s1) then ''success'' else ''abandoned'')
            else givenStatus g)"
    and "summary (outcome a) =
           (if givenSummary g = []
            then ''Recorded '' @ decimal (length (acceptedCalls cs s1)) @ '' steps''
            else givenSummary g)"
    by auto
  then show ?thesis
    by auto
qed

theorem empty_outcome_field_is_absent_witness:
  "start \<lparr>uid = ''session-1'', now = 1000\<rparr> ''1/1/2026'' (Some ''T'') demoIdle = (None, demoRecording)
   \<and> givenStatus \<lparr>givenStatus = '''', givenSummary = ''''\<rparr> = []
   \<and> givenSummary \<lparr>givenStatus = '''', givenSummary = ''''\<rparr> = []
   \<and> (\<exists>a s'. stop 5000 Vscode (Some \<lparr>givenStatus = '''', givenSummary = ''''\<rparr>)
                 (run demoCalls demoRecording) = (Inr a, s')
        \<and> status (outcome a) = ''success'' \<and> summary (outcome a) = ''Recorded 2 steps'')"
proof -
  have ac: "acceptedCalls demoCalls demoRecording = demoCalls"
    using demo_accepted by (rule acceptedAll_calls)
  have d: "decimal 2 = ''2''"
    by (simp add: decimal_digit)
  have p: "list_ex isPromptCall demoCalls" and l: "length demoCalls = 2"
    by (simp_all add: demoCalls_def)
  have "\<exists>a s'. stop 5000 Vscode (Some \<lparr>givenStatus = '''', givenSummary = ''''\<rparr>)
                 (run demoCalls demoRecording) = (Inr a, s')
        \<and> status (outcome a) = ''success'' \<and> summary (outcome a) = ''Recorded 2 steps''"
    using empty_outcome_field_is_absent [OF demo_start, of 5000 Vscode
        "\<lparr>givenStatus = '''', givenSummary = ''''\<rparr>" demoCalls]
    by (auto simp: ac d p l)
  then show ?thesis
    using demo_start by simp
qed

lemma set_setAdd: "set (setAdd ms f) = insert f (set ms)"
  by (auto simp: setAdd_def)

lemma distinct_setAdd: "isPrimitive f \<Longrightarrow> distinct ms \<Longrightarrow> distinct (setAdd ms f)"
  by (simp add: setAdd_def)

lemma set_foldl_setAdd: "set (foldl setAdd ms xs) = set ms \<union> set xs"
  by (induction xs arbitrary: ms) (auto simp: set_setAdd)

lemma distinct_foldl_setAdd:
  "list_all isPrimitive xs \<Longrightarrow> distinct ms \<Longrightarrow> distinct (foldl setAdd ms xs)"
  by (induction xs arbitrary: ms) (simp_all add: distinct_setAdd)

lemma isString_isPrimitive: "isString v \<Longrightarrow> isPrimitive v"
  by (cases v) simp_all

lemma pathList_forEachAdd: "pathList v \<Longrightarrow> forEachAdd v ms = Some (foldl setAdd ms (listed v))"
  by (cases v) (simp_all add: forEachAdd_def)

lemma pathList_primitive: "pathList v \<Longrightarrow> list_all isPrimitive (listed v)"
  by (cases v) (auto simp: list_all_iff isString_isPrimitive)

lemma perform_files:
  assumes "typedPaths c" and "distinct (filesCreated s)" and "distinct (filesModified s)"
  shows "distinct (filesCreated (snd (perform c s)))"
    and "distinct (filesModified (snd (perform c s)))"
  using assms
  by (cases c;
      simp add: method_defs Let_def addStep_def pathList_forEachAdd distinct_foldl_setAdd
        pathList_primitive)+

lemma perform_files_accepted:
  assumes "typedPaths c" and "accepted c s"
  shows "set (filesCreated (snd (perform c s))) = set (filesCreated s) \<union> createdPaths (builtStep c s)"
    and "set (filesModified (snd (perform c s))) = set (filesModified s) \<union> modifiedPaths (builtStep c s)"
  using assms
  by (cases c;
      simp add: accepted_def method_defs Let_def addStep_def pathList_forEachAdd set_foldl_setAdd
        split: if_splits)+

lemma run_files:
  assumes "acceptedAll cs s" and "list_all typedPaths cs"
    and "distinct (filesCreated s)" and "distinct (filesModified s)"
  shows "distinct (filesCreated (run cs s)) \<and> distinct (filesModified (run cs s))
         \<and> set (filesCreated (run cs s)) = set (filesCreated s) \<union> \<Union> (createdPaths ` set (builtSteps cs s))
         \<and> set (filesModified (run cs s)) = set (filesModified s) \<union> \<Union> (modifiedPaths ` set (builtSteps cs s))"
  using assms
proof (induction cs arbitrary: s)
  case Nil
  then show ?case by simp
next
  case (Cons c cs)
  let ?s = "snd (perform c s)"
  have c: "typedPaths c" and a: "accepted c s" using Cons.prems by simp_all
  have d: "distinct (filesCreated ?s)" "distinct (filesModified ?s)"
    using perform_files [OF c Cons.prems(3,4)] by simp_all
  have ih: "distinct (filesCreated (run cs ?s)) \<and> distinct (filesModified (run cs ?s))
         \<and> set (filesCreated (run cs ?s)) = set (filesCreated ?s) \<union> \<Union> (createdPaths ` set (builtSteps cs ?s))
         \<and> set (filesModified (run cs ?s)) = set (filesModified ?s) \<union> \<Union> (modifiedPaths ` set (builtSteps cs ?s))"
    using Cons.IH [of ?s] Cons.prems d by simp
  show ?case
    using ih a by (simp add: perform_files_accepted [OF c a] Un_assoc)
qed

text \<open>
  Runs in which every call is accepted and the file lists have their declared type
  (arrays of strings, or absent). Then \<^verbatim>\<open>outcome.filesCreated\<close> is the number of
  distinct paths in the union of the \<^verbatim>\<open>filesCreated\<close> lists of the action steps of the
  artifact, and \<^verbatim>\<open>outcome.filesModified\<close> likewise; a path that several steps list
  counts once.
\<close>

lemma accepted_run_file_counts:
  assumes "start t d ttl s0 = (None, s1)"
    and "acceptedAll cs s1"
    and "list_all typedPaths cs"
  shows "\<exists>a s'. stop clock ed given (run cs s1) = (Inr a, s')
           \<and> outcomeFilesCreated (outcome a)
               = card (\<Union> (createdPaths ` set (arrays s' (artifactSteps a))))
           \<and> outcomeFilesModified (outcome a)
               = card (\<Union> (modifiedPaths ` set (arrays s' (artifactSteps a))))"
proof -
  let ?s = "run cs s1"
  note st = started [OF assms(1)]
  have rec: "state ?s = Recording" and t0: "startTime ?s = Some (now t)"
    and fr: "steps ?s < nextArray ?s"
    using st by (simp_all add: run_frame)
  from stop_recording [OF rec t0 fr, of clock ed given]
  obtain a where a: "stop clock ed given ?s = (Inr a, reset (setState Idle ?s))"
    and arr: "arrays (reset (setState Idle ?s)) (artifactSteps a) = stepList ?s"
    and fc: "outcomeFilesCreated (outcome a) = length (filesCreated ?s)"
    and fm: "outcomeFilesModified (outcome a) = length (filesModified ?s)"
    by blast
  have sl: "stepList ?s = builtSteps cs s1"
    using st by (simp add: stepList_run)
  have files: "distinct (filesCreated ?s) \<and> distinct (filesModified ?s)
         \<and> set (filesCreated ?s) = \<Union> (createdPaths ` set (builtSteps cs s1))
         \<and> set (filesModified ?s) = \<Union> (modifiedPaths ` set (builtSteps cs s1))"
    using run_files [OF assms(2,3)] st by simp
  have "length (filesCreated ?s) = card (\<Union> (createdPaths ` set (builtSteps cs s1)))"
    using files distinct_card [of "filesCreated ?s"] by simp
  moreover have "length (filesModified ?s) = card (\<Union> (modifiedPaths ` set (builtSteps cs s1)))"
    using files distinct_card [of "filesModified ?s"] by simp
  ultimately show ?thesis
    using a arr fc fm sl by simp
qed

lemma demo_edits_accepted: "acceptedAll demoEdits demoRecording"
  by (simp add: demoEdits_def eval_defs)

lemma demo_edits_typed: "list_all typedPaths demoEdits"
  by (simp add: demoEdits_def getProp_def)

lemma demo_edits_modified: "filesModified (run demoEdits demoRecording) = [JStr ''app.js'']"
  by (simp add: demoEdits_def eval_defs)

lemma accepted_run_file_counts_example:
  "start \<lparr>uid = ''session-1'', now = 1000\<rparr> ''1/1/2026'' (Some ''T'') demoIdle = (None, demoRecording)
   \<and> acceptedAll demoEdits demoRecording
   \<and> list_all typedPaths demoEdits
   \<and> (\<exists>a s'. stop 5000 Vscode None (run demoEdits demoRecording) = (Inr a, s')
        \<and> outcomeFilesModified (outcome a)
            = card (\<Union> (modifiedPaths ` set (arrays s' (artifactSteps a))))
        \<and> outcomeFilesModified (outcome a) = 1)"
proof -
  let ?s = "run demoEdits demoRecording"
  from accepted_run_file_counts [OF demo_start demo_edits_accepted demo_edits_typed,
      of 5000 Vscode None]
  obtain a s' where a: "stop 5000 Vscode None ?s = (Inr a, s')"
    and m: "outcomeFilesModified (outcome a)
            = card (\<Union> (modifiedPaths ` set (arrays s' (artifactSteps a))))"
    by blast
  have rec: "state ?s = Recording" and t0: "startTime ?s = Some 1000"
    and fr: "steps ?s < nextArray ?s"
    using started [OF demo_start] by (simp_all add: run_frame)
  from stop_recording [OF rec t0 fr, of 5000 Vscode None] a
  have "outcomeFilesModified (outcome a) = length (filesModified ?s)"
    by auto
  then have "outcomeFilesModified (outcome a) = 1"
    by (simp add: demo_edits_modified)
  then show ?thesis
    using demo_start demo_edits_accepted demo_edits_typed a m by blast
qed

lemma operation_allocated: "steps s < nextArray s \<Longrightarrow> steps (apply_operation x s) < nextArray (apply_operation x s)"
  by (cases x)
    (auto simp: perform_frame start_def stop_def Let_def reset_def setState_def freshSteps_def setTitle_def
      split: option.splits)

lemma operations_allocated: "steps s < nextArray s \<Longrightarrow> steps (operations xs s) < nextArray (operations xs s)"
  by (induction xs arbitrary: s) (simp_all add: operation_allocated)

lemma perform_other_array: "r \<noteq> steps s \<Longrightarrow> arrays (snd (perform c s)) r = arrays s r"
  by (cases "accepted c s") (simp_all add: perform_accepted perform_not_accepted)

lemma operation_other_array:
  assumes "r < nextArray s" and "r \<noteq> steps s"
  shows "arrays (apply_operation x s) r = arrays s r
         \<and> r < nextArray (apply_operation x s) \<and> r \<noteq> steps (apply_operation x s)"
  using assms
  by (cases x)
    (auto simp: perform_frame perform_other_array start_def stop_def Let_def reset_def setState_def
      freshSteps_def setTitle_def split: option.splits)

lemma operations_other_array:
  assumes "r < nextArray s" and "r \<noteq> steps s"
  shows "arrays (operations xs s) r = arrays s r"
  using assms
proof (induction xs arbitrary: s)
  case Nil
  then show ?case by simp
next
  case (Cons x xs)
  from operation_other_array [OF Cons.prems, of x]
  have "arrays (apply_operation x s) r = arrays s r"
    and "r < nextArray (apply_operation x s)" and "r \<noteq> steps (apply_operation x s)"
    by simp_all
  with Cons.IH [of "apply_operation x s"] show ?case by simp
qed

lemma stop_returns:
  assumes "stop clock ed given s = (Inr a, s')"
  shows "state s = Recording" and "s' = reset (setState Idle s)" and "artifactSteps a = steps s"
  using assms
  by (auto simp: stop_def Let_def split: if_splits option.splits)

lemma operations_mutations: "operations (map Mutation cs) s = run cs s"
  by (induction cs arbitrary: s) simp_all

text \<open>
  C7. A session is created and operated in any way, and then a \<^verbatim>\<open>stop\<close> returns an
  artifact. After it the accessors give the idle defaults: state \<^verbatim>\<open>idle\<close>, no steps,
  no prompts, the empty title, duration 0, all statistics 0. The array the artifact
  refers to holds the steps the session had when it was stopped, and no later
  sequence of operations on the session changes that array. (The outcome counts are
  numbers copied into the artifact.)
\<close>

theorem stop_resets_and_artifact_is_stable:
  assumes "stop clock ed given (operations before (newSession newId wsRoot wsName)) = (Inr a, s')"
  shows "getState s' = Idle \<and> getStepCount s' = 0 \<and> getPromptCount s' = 0
         \<and> getTitle s' = [] \<and> getDuration clock2 s' = 0
         \<and> getStats s' = \<lparr>totalSteps = 0, prompts = 0, actions = 0, statsNotes = 0, others = 0,
                            statsFilesCreated = 0, statsFilesModified = 0\<rparr>
         \<and> arrays s' (artifactSteps a) = stepList (operations before (newSession newId wsRoot wsName))
         \<and> arrays (operations later s') (artifactSteps a) = arrays s' (artifactSteps a)"
proof -
  let ?s = "operations before (newSession newId wsRoot wsName)"
  have al: "steps ?s < nextArray ?s"
    by (rule operations_allocated) (simp add: newSession_def)
  note r = stop_returns [OF assms]
  have idle: "getState s' = Idle \<and> getStepCount s' = 0 \<and> getPromptCount s' = 0
         \<and> getTitle s' = [] \<and> getDuration clock2 s' = 0"
    by (simp add: r(2) getState_def getStepCount_def getPromptCount_def getTitle_def
        getDuration_def stepList_def reset_def setState_def freshSteps_def)
  have stats: "getStats s' = \<lparr>totalSteps = 0, prompts = 0, actions = 0, statsNotes = 0, others = 0,
                            statsFilesCreated = 0, statsFilesModified = 0\<rparr>"
    by (simp add: r(2) getStats_def stepList_def reset_def setState_def freshSteps_def)
  have kept: "arrays s' (artifactSteps a) = stepList ?s"
    using al by (simp add: r(2,3) stepList_def reset_def setState_def freshSteps_def)
  have "artifactSteps a < nextArray s'" and "artifactSteps a \<noteq> steps s'"
    using al by (simp_all add: r(2,3) reset_def setState_def freshSteps_def)
  then have "arrays (operations later s') (artifactSteps a) = arrays s' (artifactSteps a)"
    by (rule operations_other_array)
  with idle stats kept show ?thesis by simp
qed

lemma demo_history: "operations demoHistory demoIdle = run demoCalls demoRecording"
  by (simp add: demoHistory_def operations_mutations demo_start)

theorem stop_resets_and_artifact_is_stable_witness:
  "\<exists>a s'. stop 5000 Vscode None (operations demoHistory (newSession ''session-0'' ''/work'' ''work''))
            = (Inr a, s')
     \<and> getState s' = Idle \<and> getStepCount s' = 0 \<and> getTitle s' = []
     \<and> length (arrays s' (artifactSteps a)) = 2
     \<and> arrays (operations demoLater s') (artifactSteps a) = arrays s' (artifactSteps a)"
proof -
  obtain a where a: "stop 5000 Vscode None (run demoCalls demoRecording)
        = (Inr a, reset (setState Idle (run demoCalls demoRecording)))"
    using demo_stop by blast
  let ?s' = "reset (setState Idle (run demoCalls demoRecording))"
  have h: "stop 5000 Vscode None (operations demoHistory (newSession ''session-0'' ''/work'' ''work''))
            = (Inr a, ?s')"
    using a demo_history by (simp add: demoIdle_def)
  have n: "length (stepList (run demoCalls demoRecording)) = 2"
    using started [OF demo_start] demo_accepted
    by (simp add: stepList_run acceptedAll_length) (simp add: demoCalls_def)
  from stop_resets_and_artifact_is_stable [OF h, of 0 demoLater] h n demo_history
  show ?thesis
    by (auto simp: demoIdle_def)
qed

text \<open>
  Calls whose arguments have their declared types are accepted whenever the session
  is recording, so the two lemmas on accepted runs apply to every sequence of such
  calls.
\<close>

lemma isString_stringifies: "isString v \<Longrightarrow> stringifies v"
  by (cases v) simp_all

lemma pathList_stringifies: "pathList v \<Longrightarrow> stringifies v"
  by (cases v) (auto simp: list_all_iff isString_stringifies)

lemma conforms_accepted:
  assumes "state s = Recording" and "conforms c"
  shows "accepted c s"
  using assms
  by (cases c)
    (simp_all add: accepted_def method_defs Let_def pathList_forEachAdd pathList_stringifies
      isString_stringifies)

lemma conforms_acceptedAll:
  assumes "state s = Recording" and "list_all conforms cs"
  shows "acceptedAll cs s"
  using assms
  by (induction cs arbitrary: s) (simp_all add: conforms_accepted perform_frame)

lemma conforms_typedPaths: "conforms c \<Longrightarrow> typedPaths c"
  by (cases c) simp_all

section \<open>Properties of the feed adapter\<close>

lemma stringifies_JStr_eq: "v = JStr x \<Longrightarrow> stringifies v"
  by simp

lemma getProp_null: "getProp JNull k = JUndefined" "getProp JUndefined k = JUndefined"
  by (simp_all add: getProp_def)

lemma addEntry_feedCall:
  "snd (addEntryToSession t entry s)
     = (case feedCall t entry of None \<Rightarrow> s | Some c \<Rightarrow> snd (perform c s))"
proof (cases "entry = JNull \<or> entry = JUndefined")
  case True
  then show ?thesis
    by (auto simp: addEntryToSession_def feedCall_def getProp_null)
next
  case False
  show ?thesis
  proof (cases "stringifies (getProp entry ''type'')")
    case True
    with False show ?thesis
      by (simp add: addEntryToSession_def feedCall_def orElse_def)
  next
    case ns: False
    then have "getProp entry ''type'' \<noteq> JStr x" for x
      by auto
    with False ns show ?thesis
      by (simp add: addEntryToSession_def feedCall_def)
  qed
qed

lemma feedLoop_run: "feedLoop parse env i lines s = run (feedCalls parse env i lines) s"
proof (induction lines arbitrary: i s)
  case Nil
  then show ?case by simp
next
  case (Cons line rest)
  show ?case
  proof (cases "parse line")
    case None
    then show ?thesis by (simp add: Cons.IH)
  next
    case (Some entry)
    then show ?thesis
      by (cases "feedCall (env i) entry") (simp_all add: Cons.IH addEntry_feedCall)
  qed
qed

lemma feedCall_None: "feedCall t entry = None \<longleftrightarrow> \<not> wellFormed entry"
  by (auto simp: wellFormed_def feedCall_def knownTypes_def)

lemma feedCalls_length:
  "length (feedCalls parse env i lines) = length (filter (wellFormedLine parse) lines)"
proof (induction lines arbitrary: i)
  case Nil
  then show ?case by simp
next
  case (Cons line rest)
  show ?case
  proof (cases "parse line")
    case None
    then show ?thesis by (simp add: Cons.IH wellFormedLine_def)
  next
    case (Some entry)
    then show ?thesis
      using feedCall_None [of "env i" entry]
      by (cases "feedCall (env i) entry") (simp_all add: Cons.IH wellFormedLine_def)
  qed
qed

lemma feedCalls_append:
  "feedCalls parse env i (front @ rest)
     = feedCalls parse env i front @ feedCalls parse env (i + length front) rest"
  by (induction front arbitrary: i) simp_all

lemma feedCall_bad: "\<not> wellFormed entry \<Longrightarrow> feedCall t entry = None"
  by (simp add: feedCall_None)

lemma feedCalls_bad:
  "\<not> wellFormedLine parse bad \<Longrightarrow> feedCalls parse env i (bad # rest) = feedCalls parse env (Suc i) rest"
  by (cases "parse bad") (simp_all add: wellFormedLine_def feedCall_bad)

lemma feedCalls_good:
  "wellFormedLine parse good \<Longrightarrow>
   \<exists>entry c. parse good = Some entry \<and> feedCall (env i) entry = Some c
     \<and> feedCalls parse env i (good # rest) = c # feedCalls parse env (Suc i) rest"
proof -
  assume "wellFormedLine parse good"
  then obtain entry where e: "parse good = Some entry" and w: "wellFormed entry"
    by (auto simp: wellFormedLine_def split: option.splits)
  then obtain c where c: "feedCall (env i) entry = Some c"
    using feedCall_None [of "env i" entry] by auto
  show ?thesis
    using e c by simp
qed

lemma trim_empty: "trim str = [] \<longleftrightarrow> (\<forall>c\<in>set str. isWhiteSpace c)"
proof
  assume "trim str = []"
  then have "\<forall>c\<in>set (dropWhile isWhiteSpace str). isWhiteSpace c"
    by (simp add: trim_def dropWhile_eq_Nil_conv)
  then have "dropWhile isWhiteSpace str = []"
    using hd_dropWhile [of isWhiteSpace str] hd_in_set [of "dropWhile isWhiteSpace str"]
    by blast
  then show "\<forall>c\<in>set str. isWhiteSpace c"
    by (simp add: dropWhile_eq_Nil_conv)
next
  assume "\<forall>c\<in>set str. isWhiteSpace c"
  then show "trim str = []"
    by (auto simp: trim_def dest: set_dropWhileD)
qed

lemma splitLines_chars: "\<forall>line\<in>set (splitLines str). set line \<subseteq> set str"
proof (induction str)
  case Nil
  then show ?case by simp
next
  case (Cons c cs)
  show ?case
  proof (cases "splitLines cs")
    case Nil
    then show ?thesis by simp
  next
    case (Cons l ls)
    have "set l \<subseteq> set cs" and "\<forall>line\<in>set ls. set line \<subseteq> set cs"
      using Cons.IH Cons by simp_all
    then show ?thesis
      using Cons by auto
  qed
qed

lemma blank_text_no_lines:
  assumes "trim str = []"
  shows "filter (\<lambda>line. trim line \<noteq> []) (splitLines str) = []"
  using assms splitLines_chars [of str]
  by (auto simp: trim_empty filter_empty_conv)

text \<open>
  C8. The session is recording and the feed file can be read. Then
  \<^verbatim>\<open>processNewLines\<close> moves the cursor to the end of the file and leaves the session
  as the calls of the well-formed new lines leave it, made in the order of the lines:
  one call for each line that parses to an entry of a known type, none for a line that
  does not parse or whose entry has another type. A bad line anywhere in a batch
  contributes nothing and the lines after it are handled as they would be without it;
  a well-formed line contributes exactly its one call.
\<close>

theorem feed_batch_skips_bad_lines:
  assumes "state s = Recording"
  shows "processNewLines parse env (Some content) (Some s) w
           = (w\<lparr>lastPosition := length content\<rparr>,
              Some (run (feedCalls parse env 0 (newLines w content)) s))
         \<and> length (feedCalls parse env 0 (newLines w content))
             = length (filter (wellFormedLine parse) (newLines w content))
         \<and> (\<not> wellFormedLine parse bad \<longrightarrow>
               feedCalls parse env i (front @ bad # rest)
                 = feedCalls parse env i front @ feedCalls parse env (Suc (i + length front)) rest)
         \<and> (wellFormedLine parse good \<longrightarrow>
               (\<exists>entry c. parse good = Some entry \<and> feedCall (env (i + length front)) entry = Some c
                  \<and> feedCalls parse env i (front @ good # rest)
                      = feedCalls parse env i front @ c # feedCalls parse env (Suc (i + length front)) rest))"
proof -
  have batch: "processNewLines parse env (Some content) (Some s) w
           = (w\<lparr>lastPosition := length content\<rparr>,
              Some (run (feedCalls parse env 0 (newLines w content)) s))"
  proof (cases "trim (drop (lastPosition w) content) = []")
    case True
    then show ?thesis
      using assms
      by (simp add: processNewLines_def getState_def Let_def newLines_def blank_text_no_lines)
  next
    case False
    then show ?thesis
      using assms
      by (simp add: processNewLines_def getState_def Let_def newLines_def feedLoop_run)
  qed
  have bad: "feedCalls parse env i (front @ bad # rest)
                 = feedCalls parse env i front @ feedCalls parse env (Suc (i + length front)) rest"
    if "\<not> wellFormedLine parse bad"
    using feedCalls_bad [OF that, of env "i + length front" rest]
    by (simp only: feedCalls_append)
  have good: "\<exists>entry c. parse good = Some entry \<and> feedCall (env (i + length front)) entry = Some c
                  \<and> feedCalls parse env i (front @ good # rest)
                      = feedCalls parse env i front @ c # feedCalls parse env (Suc (i + length front)) rest"
    if "wellFormedLine parse good"
  proof -
    from feedCalls_good [OF that, of env "i + length front" rest]
    obtain entry c where "parse good = Some entry"
      and "feedCall (env (i + length front)) entry = Some c"
      and "feedCalls parse env (i + length front) (good # rest)
             = c # feedCalls parse env (Suc (i + length front)) rest"
      by blast
    then show ?thesis
      by (simp only: feedCalls_append) blast
  qed
  show ?thesis
    using batch bad good by (simp add: feedCalls_length)
qed


lemma demo_new_lines:
  "newLines demoWatcher demoFeed
     = [''prompt line'', ''not json'', ''mystery line'', ''null'', ''note line'']"
  by (simp add: newLines_def demoWatcher_def demoFeed_def trim_def isWhiteSpace_def)

lemma demo_well_formed:
  "filter (wellFormedLine demoParse)
     [''prompt line'', ''not json'', ''mystery line'', ''null'', ''note line'']
     = [''prompt line'', ''note line'']"
  by (simp add: wellFormedLine_def wellFormed_def demoParse_def getProp_def knownTypes_def)

lemma demo_feed_calls:
  "feedCalls demoParse demoEnv 0
     [''prompt line'', ''not json'', ''mystery line'', ''null'', ''note line'']
     = [AddPrompt (demoEnv 0) (JStr ''Build a CTA component'')
          (JObj [(''context'', JUndefined), (''intent'', JUndefined)]),
        AddNote (demoEnv 4) (JStr ''User wanted hover effects'') JUndefined]"
  by (simp add: demoParse_def feedCall_def getProp_def numeral_eq_Suc)

lemma demo_line_checks:
  "\<not> wellFormedLine demoParse ''not json''"
  "\<not> wellFormedLine demoParse ''mystery line''"
  "\<not> wellFormedLine demoParse ''null''"
  "wellFormedLine demoParse ''note line''"
  by (simp_all add: wellFormedLine_def wellFormed_def demoParse_def getProp_def knownTypes_def)

theorem feed_batch_skips_bad_lines_witness:
  "state demoRecording = Recording
   \<and> newLines demoWatcher demoFeed
       = [''prompt line'', ''not json'', ''mystery line'', ''null'', ''note line'']
   \<and> filter (wellFormedLine demoParse) (newLines demoWatcher demoFeed)
       = [''prompt line'', ''note line'']
   \<and> processNewLines demoParse demoEnv (Some demoFeed) (Some demoRecording) demoWatcher
       = (demoWatcher\<lparr>lastPosition := length demoFeed\<rparr>,
          Some (run [AddPrompt (demoEnv 0) (JStr ''Build a CTA component'')
                       (JObj [(''context'', JUndefined), (''intent'', JUndefined)]),
                     AddNote (demoEnv 4) (JStr ''User wanted hover effects'') JUndefined]
                  demoRecording))
   \<and> \<not> wellFormedLine demoParse ''not json''
   \<and> feedCalls demoParse demoEnv 0 ([''prompt line''] @ ''not json'' # [''note line''])
       = feedCalls demoParse demoEnv 0 [''prompt line''] @ feedCalls demoParse demoEnv 2 [''note line'']
   \<and> wellFormedLine demoParse ''note line''
   \<and> (\<exists>entry c. demoParse ''note line'' = Some entry \<and> feedCall (demoEnv 1) entry = Some c
         \<and> feedCalls demoParse demoEnv 0 ([''prompt line''] @ ''note line'' # [''not json''])
             = feedCalls demoParse demoEnv 0 [''prompt line''] @ c # feedCalls demoParse demoEnv 2 [''not json''])"
proof -
  have r: "state demoRecording = Recording"
    using started [OF demo_start] by simp
  note inst = feed_batch_skips_bad_lines [OF r, of demoParse demoEnv demoFeed demoWatcher
      "''not json''" 0 "[''prompt line'']" "[''note line'']" "''note line''"]
  note inst2 = feed_batch_skips_bad_lines [OF r, of demoParse demoEnv demoFeed demoWatcher
      "''not json''" 0 "[''prompt line'']" "[''not json'']" "''note line''"]
  from inst
  have "processNewLines demoParse demoEnv (Some demoFeed) (Some demoRecording) demoWatcher
       = (demoWatcher\<lparr>lastPosition := length demoFeed\<rparr>,
          Some (run (feedCalls demoParse demoEnv 0 (newLines demoWatcher demoFeed)) demoRecording))"
    by blast
  then have p: "processNewLines demoParse demoEnv (Some demoFeed) (Some demoRecording) demoWatcher
       = (demoWatcher\<lparr>lastPosition := length demoFeed\<rparr>,
          Some (run [AddPrompt (demoEnv 0) (JStr ''Build a CTA component'')
                       (JObj [(''context'', JUndefined), (''intent'', JUndefined)]),
                     AddNote (demoEnv 4) (JStr ''User wanted hover effects'') JUndefined]
                  demoRecording))"
    unfolding demo_new_lines demo_feed_calls .
  have w: "filter (wellFormedLine demoParse) (newLines demoWatcher demoFeed)
       = [''prompt line'', ''note line'']"
    unfolding demo_new_lines by (rule demo_well_formed)
  have one: "0 + length [''prompt line''] = 1" and two: "Suc 1 = (2::nat)"
    by simp_all
  have b: "feedCalls demoParse demoEnv 0 ([''prompt line''] @ ''not json'' # [''note line''])
       = feedCalls demoParse demoEnv 0 [''prompt line''] @ feedCalls demoParse demoEnv 2 [''note line'']"
    using inst demo_line_checks(1) unfolding one two by blast
  have g: "\<exists>entry c. demoParse ''note line'' = Some entry \<and> feedCall (demoEnv 1) entry = Some c
         \<and> feedCalls demoParse demoEnv 0 ([''prompt line''] @ ''note line'' # [''not json''])
             = feedCalls demoParse demoEnv 0 [''prompt line''] @ c # feedCalls demoParse demoEnv 2 [''not json'']"
    using inst2 demo_line_checks(4) unfolding one two by blast
  show ?thesis
    using r demo_new_lines w p demo_line_checks(1,4) b g by blast
qed


text \<open>
  C9, as the code has it. For an entry of type \<^verbatim>\<open>prompt\<close> the adapter makes exactly
  one call, of \<^verbatim>\<open>addPrompt\<close>. When the entry's \<^verbatim>\<open>raw\<close> is truthy (for a string: not
  empty), \<^verbatim>\<open>raw\<close> is the prompt content and \<^verbatim>\<open>content\<close> the intent. Otherwise,
  when \<^verbatim>\<open>raw\<close> is absent or falsy, \<^verbatim>\<open>content\<close> is the prompt content and the entry's
  own \<^verbatim>\<open>intent\<close> the intent.
\<close>

theorem feed_prompt_precedence:
  assumes "getProp entry ''type'' = JStr ''prompt''"
  shows "(truthy (getProp entry ''raw'') \<longrightarrow>
            addEntryToSession t entry s
              = addPrompt t (getProp entry ''raw'')
                  (JObj [(''context'', getProp entry ''context''),
                         (''intent'', getProp entry ''content'')]) s)
         \<and> (\<not> truthy (getProp entry ''raw'') \<longrightarrow>
               addEntryToSession t entry s
                 = addPrompt t (getProp entry ''content'')
                     (JObj [(''context'', getProp entry ''context''),
                            (''intent'', getProp entry ''intent'')]) s)"
proof -
  have "entry \<noteq> JNull" and "entry \<noteq> JUndefined"
    using assms by (auto simp: getProp_null)
  then show ?thesis
    using assms by (simp add: addEntryToSession_def orElse_def)
qed

theorem feed_prompt_precedence_witness:
  "getProp rawEntry ''type'' = JStr ''prompt'' \<and> truthy (getProp rawEntry ''raw'')
   \<and> addEntryToSession (demoEnv 0) rawEntry demoRecording
       = addPrompt (demoEnv 0) (JStr ''Please build a CTA component'')
           (JObj [(''context'', JUndefined), (''intent'', JStr ''Build a CTA'')]) demoRecording
   \<and> getProp plainEntry ''type'' = JStr ''prompt'' \<and> \<not> truthy (getProp plainEntry ''raw'')
   \<and> addEntryToSession (demoEnv 0) plainEntry demoRecording
       = addPrompt (demoEnv 0) (JStr ''Build a CTA'')
           (JObj [(''context'', JUndefined), (''intent'', JStr ''ui'')]) demoRecording"
proof -
  have a: "getProp rawEntry ''type'' = JStr ''prompt''"
    and b: "getProp plainEntry ''type'' = JStr ''prompt''"
    by (simp_all add: rawEntry_def plainEntry_def getProp_def)
  have r: "getProp rawEntry ''raw'' = JStr ''Please build a CTA component''"
    "getProp rawEntry ''content'' = JStr ''Build a CTA''"
    "getProp rawEntry ''context'' = JUndefined"
    by (simp_all add: rawEntry_def getProp_def)
  have p: "getProp plainEntry ''raw'' = JUndefined"
    "getProp plainEntry ''content'' = JStr ''Build a CTA''"
    "getProp plainEntry ''context'' = JUndefined"
    "getProp plainEntry ''intent'' = JStr ''ui''"
    by (simp_all add: plainEntry_def getProp_def)
  show ?thesis
    using feed_prompt_precedence [OF a, of "demoEnv 0" demoRecording]
      feed_prompt_precedence [OF b, of "demoEnv 0" demoRecording] a b
    by (simp add: r p)
qed

text \<open>
  C9 as it is stated fails where \<^verbatim>\<open>raw\<close> is present and empty: the entry's
  \<^verbatim>\<open>content\<close> becomes the prompt content and its \<^verbatim>\<open>intent\<close> the intent, which is
  not the step that \<^verbatim>\<open>addPrompt\<close> with \<^verbatim>\<open>raw\<close> as content and \<^verbatim>\<open>content\<close> as
  intent would have recorded.
\<close>

theorem feed_prompt_empty_raw_counterexample:
  "getProp emptyRawEntry ''raw'' = JStr []
   \<and> stepList (snd (addEntryToSession \<lparr>uid = ''x'', now = 2000\<rparr> emptyRawEntry demoRecording))
       = [PromptStep ''x'' 1 0 (JStr ''Build a CTA'') JUndefined (JStr ''ui'')]
   \<and> stepList (snd (addPrompt \<lparr>uid = ''x'', now = 2000\<rparr> (getProp emptyRawEntry ''raw'')
                      (JObj [(''context'', getProp emptyRawEntry ''context''),
                             (''intent'', getProp emptyRawEntry ''content'')]) demoRecording))
       = [PromptStep ''x'' 1 0 (JStr []) JUndefined (JStr ''Build a CTA'')]
   \<and> stepList (snd (addEntryToSession \<lparr>uid = ''x'', now = 2000\<rparr> emptyRawEntry demoRecording))
       \<noteq> stepList (snd (addPrompt \<lparr>uid = ''x'', now = 2000\<rparr> (getProp emptyRawEntry ''raw'')
                      (JObj [(''context'', getProp emptyRawEntry ''context''),
                             (''intent'', getProp emptyRawEntry ''content'')]) demoRecording))"
  by (simp add: emptyRawEntry_def addEntryToSession_def orElse_def eval_defs)

section \<open>Feed entries that are rejected half way\<close>

lemma feed_batch_run:
  assumes "state s = Recording"
  shows "processNewLines parse env (Some content) (Some s) w
           = (w\<lparr>lastPosition := length content\<rparr>,
              Some (run (feedCalls parse env 0 (newLines w content)) s))"
proof (cases "trim (drop (lastPosition w) content) = []")
  case True
  then show ?thesis
    using assms
    by (simp add: processNewLines_def getState_def Let_def newLines_def blank_text_no_lines)
next
  case False
  then show ?thesis
    using assms
    by (simp add: processNewLines_def getState_def Let_def newLines_def feedLoop_run)
qed

lemma demo_recording: "state demoRecording = Recording"
  using started [OF demo_start] by simp

lemma stop_projections:
  assumes "state s = Recording" and "startTime s = Some t0" and "steps s < nextArray s"
  shows "\<not> isl (fst (stop clock ed given s))"
    and "arrays (snd (stop clock ed given s)) (artifactSteps (projr (fst (stop clock ed given s))))
           = stepList s"
    and "outcomeFilesCreated (outcome (projr (fst (stop clock ed given s)))) = length (filesCreated s)"
    and "outcomeFilesModified (outcome (projr (fst (stop clock ed given s)))) = length (filesModified s)"
proof -
  from stop_recording [OF assms, of clock ed given]
  obtain a where a: "stop clock ed given s = (Inr a, reset (setState Idle s))"
    and b: "arrays (reset (setState Idle s)) (artifactSteps a) = stepList s"
    and c: "outcomeFilesCreated (outcome a) = length (filesCreated s)"
    and d: "outcomeFilesModified (outcome a) = length (filesModified s)"
    by blast
  show "\<not> isl (fst (stop clock ed given s))"
    and "arrays (snd (stop clock ed given s)) (artifactSteps (projr (fst (stop clock ed given s))))
           = stepList s"
    and "outcomeFilesCreated (outcome (projr (fst (stop clock ed given s)))) = length (filesCreated s)"
    and "outcomeFilesModified (outcome (projr (fst (stop clock ed given s)))) = length (filesModified s)"
    using b c d by (simp_all add: a)
qed

lemma run_from_demo:
  "state (run cs demoRecording) = Recording"
  "startTime (run cs demoRecording) = Some 1000"
  "steps (run cs demoRecording) < nextArray (run cs demoRecording)"
  using started [OF demo_start] by (simp_all add: run_frame)

lemma drift_feed_calls:
  "feedCalls driftParse demoEnv 0 (newLines demoWatcher driftFeed) = driftCalls"
  by (simp add: newLines_def demoWatcher_def driftFeed_def trim_def isWhiteSpace_def
      driftParse_def feedCall_def getProp_def driftCalls_def)

lemma drift_run:
  "acceptedCalls driftCalls demoRecording = [AddNote (demoEnv 1) (JStr ''Fixed a typo'') JUndefined]"
  "stepList (run driftCalls demoRecording)
     = [NoteStep ''feed-1'' 2 1 (JStr ''Fixed a typo'') JUndefined]"
  "sequenceCounter (run driftCalls demoRecording) = 2"
  by (simp_all add: driftCalls_def demoEnv_def decimal_digit eval_defs)

text \<open>
  C1. The code breaks the claim on a feed batch. The session is recording; the feed
  brings a prompt entry without a content and then a note. \<^verbatim>\<open>addPrompt\<close> increments
  the sequence counter and then raises in its log line, the feed reader catches the
  exception, and the note is accepted. The session is still recording with one step
  and the counter at 2, and the artifact that \<^verbatim>\<open>stop\<close> returns holds the note, the
  only accepted call, at index 0 with sequence number 1.
\<close>

theorem rejected_prompt_shifts_sequence:
  "processNewLines driftParse demoEnv (Some driftFeed) (Some demoRecording) demoWatcher
     = (demoWatcher\<lparr>lastPosition := length driftFeed\<rparr>, Some (run driftCalls demoRecording))
   \<and> acceptedCalls driftCalls demoRecording
       = [AddNote (demoEnv 1) (JStr ''Fixed a typo'') JUndefined]
   \<and> state (run driftCalls demoRecording) = Recording
   \<and> length (stepList (run driftCalls demoRecording)) = 1
   \<and> sequenceCounter (run driftCalls demoRecording) = 2
   \<and> \<not> isl (fst (stop 9000 Vscode None (run driftCalls demoRecording)))
   \<and> arrays (snd (stop 9000 Vscode None (run driftCalls demoRecording)))
        (artifactSteps (projr (fst (stop 9000 Vscode None (run driftCalls demoRecording)))))
       = [NoteStep ''feed-1'' 2 1 (JStr ''Fixed a typo'') JUndefined]
   \<and> map sequence
        (arrays (snd (stop 9000 Vscode None (run driftCalls demoRecording)))
           (artifactSteps (projr (fst (stop 9000 Vscode None (run driftCalls demoRecording))))))
       = [1]"
proof -
  have batch: "processNewLines driftParse demoEnv (Some driftFeed) (Some demoRecording) demoWatcher
     = (demoWatcher\<lparr>lastPosition := length driftFeed\<rparr>, Some (run driftCalls demoRecording))"
    using feed_batch_run [OF demo_recording, of driftParse demoEnv driftFeed demoWatcher]
    unfolding drift_feed_calls .
  note p = stop_projections [of "run driftCalls demoRecording" 1000 9000 Vscode None, OF run_from_demo]
  show ?thesis
    using batch by (simp add: p drift_run run_from_demo)
qed

lemma half_feed_calls:
  "feedCalls halfParse demoEnv 0 (newLines demoWatcher halfFeed) = halfCalls"
  by (simp add: newLines_def demoWatcher_def halfFeed_def trim_def isWhiteSpace_def
      halfParse_def feedCall_def getProp_def halfCalls_def)

lemma half_run:
  "acceptedCalls halfCalls demoRecording = []"
  "stepList (run halfCalls demoRecording) = []"
  "filesCreated (run halfCalls demoRecording) = [JStr ''a.js'']"
  "filesModified (run halfCalls demoRecording) = []"
  by (simp_all add: halfCalls_def eval_defs)

text \<open>
  C5. The code breaks the claim on a feed batch. The session is recording; the feed
  brings an action entry whose \<^verbatim>\<open>filesCreated\<close> is \<^verbatim>\<open>["a.js"]\<close> and whose
  \<^verbatim>\<open>filesModified\<close> is the string \<^verbatim>\<open>"oops"\<close>. \<^verbatim>\<open>addAction\<close> adds \<^verbatim>\<open>a.js\<close> to the
  created set and then raises on the second list, before it builds a step; the feed
  reader catches the exception. No call was accepted and the artifact has no step,
  so its action steps list no path, but \<^verbatim>\<open>outcome.filesCreated\<close> is 1.
\<close>

theorem rejected_action_counts_file:
  "processNewLines halfParse demoEnv (Some halfFeed) (Some demoRecording) demoWatcher
     = (demoWatcher\<lparr>lastPosition := length halfFeed\<rparr>, Some (run halfCalls demoRecording))
   \<and> acceptedCalls halfCalls demoRecording = []
   \<and> \<not> isl (fst (stop 9000 Vscode None (run halfCalls demoRecording)))
   \<and> arrays (snd (stop 9000 Vscode None (run halfCalls demoRecording)))
        (artifactSteps (projr (fst (stop 9000 Vscode None (run halfCalls demoRecording))))) = []
   \<and> card (\<Union> (createdPaths ` set
        (arrays (snd (stop 9000 Vscode None (run halfCalls demoRecording)))
           (artifactSteps (projr (fst (stop 9000 Vscode None (run halfCalls demoRecording))))))))
       = 0
   \<and> outcomeFilesCreated (outcome (projr (fst (stop 9000 Vscode None (run halfCalls demoRecording)))))
       = 1"
proof -
  have batch: "processNewLines halfParse demoEnv (Some halfFeed) (Some demoRecording) demoWatcher
     = (demoWatcher\<lparr>lastPosition := length halfFeed\<rparr>, Some (run halfCalls demoRecording))"
    using feed_batch_run [OF demo_recording, of halfParse demoEnv halfFeed demoWatcher]
    unfolding half_feed_calls .
  note p = stop_projections [of "run halfCalls demoRecording" 1000 9000 Vscode None, OF run_from_demo]
  show ?thesis
    using batch by (simp add: p half_run)
qed

end
